theory Spec2Isabelle
  imports Main "HOL-Library.Word"
begin

unbundle bit_operations_syntax

section \<open>The realtime extent allocator of XFS (fs/xfs/xfs_rtalloc.c)\<close>

text \<open>
  Realtime extent numbers (\<open>xfs_rtxnum_t\<close>) and file offsets (\<open>xfs_fileoff_t\<close>) are
  unsigned 64-bit, extent lengths (\<open>xfs_rtxlen_t\<close>, \<open>xfs_extlen_t\<close>) and summary
  counters (\<open>xfs_suminfo_t\<close>) unsigned 32-bit. Arithmetic on them wraps, as \<open>+\<close>, \<open>-\<close>
  and \<open>*\<close> on words do. The C \<open>int\<close> loop counters (summary levels, bitmap block
  offsets) stay far inside their range and are modelled as \<open>int\<close>.
\<close>

type_synonym xfs_rtxnum_t = "64 word"
type_synonym xfs_rtxlen_t = "32 word"
type_synonym xfs_fileoff_t = "64 word"
type_synonym xfs_suminfo_t = "32 word"

datatype error = EPERM | EIO | ENOMEM | EINVAL | ENOSPC | EWOULDBLOCK | EOPNOTSUPP
  | EFBIG | EFSCORRUPTED

subsection \<open>Bit helpers\<close>

text \<open>
  Modelled from the spec: \<open>xfs_highbit32\<close> and \<open>xfs_highbit64\<close> (xfs_bit.h) are not
  part of the file. The spec calls them \<open>log2_floor\<close>, "the size class index"; the
  callers test the result against \<open>-1\<close> for the argument 0.
\<close>

fun highbit_nat :: "nat \<Rightarrow> int" where
  "highbit_nat n = (if n = 0 then - 1 else highbit_nat (n div 2) + 1)"

declare highbit_nat.simps [simp del]

definition xfs_highbit64 :: "64 word \<Rightarrow> int" where
  "xfs_highbit64 v = highbit_nat (unat v)"


subsection \<open>Length alignment\<close>

text \<open>\<open>xfs_rtalloc_align_len\<close>: reduce \<open>rtxlen\<close> until it is a multiple of \<open>prod\<close>.\<close>

definition xfs_rtalloc_align_len :: "xfs_rtxlen_t \<Rightarrow> xfs_rtxlen_t \<Rightarrow> xfs_rtxlen_t" where
  "xfs_rtalloc_align_len rtxlen prd =
     (if prd > 1 then rtxlen - rtxlen mod prd else rtxlen)"

text \<open>
  \<open>xfs_rtalloc_align_minmax\<close> works on three in/out pointers; the model returns the
  triple \<open>(*raminlen, *ramaxlen, *prod)\<close> left behind. The two \<open>%\<close> divide by \<open>*prod\<close>:
  for \<open>*prod = 0\<close> the kernel takes a divide error and the function does not return,
  which is the value \<open>None\<close>.
\<close>

definition xfs_rtalloc_align_minmax ::
  "xfs_rtxlen_t \<Rightarrow> xfs_rtxlen_t \<Rightarrow> xfs_rtxlen_t \<Rightarrow> (xfs_rtxlen_t \<times> xfs_rtxlen_t \<times> xfs_rtxlen_t) option"
where
  "xfs_rtalloc_align_minmax raminlen ramaxlen prd =
     (if prd = 0 then None
      else
        let newmaxlen = ramaxlen;
            newminlen = raminlen;
            slack = newmaxlen mod prd;
            newmaxlen = (if slack \<noteq> 0 then newmaxlen - slack else newmaxlen);
            slack = newminlen mod prd;
            newminlen = (if slack \<noteq> 0 then newminlen + (prd - slack) else newminlen)
        in if newmaxlen < newminlen then Some (raminlen, ramaxlen, 1)
           else Some (newminlen, newmaxlen, prd))"

text \<open>The mathematical roundings the aligner is meant to compute.\<close>

definition round_down :: "nat \<Rightarrow> nat \<Rightarrow> nat" where
  "round_down n p = n - n mod p"

definition round_up :: "nat \<Rightarrow> nat \<Rightarrow> nat" where
  "round_up n p = ((n + p - 1) div p) * p"

subsection \<open>Mount geometry and the realtime group\<close>

text \<open>
  The fields of \<open>struct xfs_mount\<close> (with its superblock \<open>m_sb\<close>) that the allocator reads.
  \<open>m_blkbit_log\<close> is the log2 of the number of bits in a filesystem block, that is of
  the number of realtime extents one bitmap block covers.
\<close>

record xfs_mount =
  sb_rblocks :: "64 word"
  sb_rextsize :: "32 word"
  sb_rextents :: "64 word"
  sb_rbmblocks :: "32 word"
  sb_logblocks :: "32 word"
  m_rsumlevels :: nat
  m_blkbit_log :: nat

text \<open>
  The realtime group with the contents of its two metadata inodes.
  \<^item> \<open>rtbitmap\<close>: bit \<open>k\<close> of the bitmap file, \<open>True\<close> when extent \<open>k\<close> is free;
  \<^item> \<open>rtsummary\<close>: the summary file as a flat array of counters;
  \<^item> \<open>rtg_rsum_cache\<close>: the in-memory hint array, \<open>None\<close> for a NULL pointer;
  \<^item> \<open>rbm_atime_sec\<close>, \<open>rbm_newrtbm\<close>: the bitmap inode's atime seconds and its
    \<open>XFS_DIFLAG_NEWRTBM\<close> flag, which hold the allocation sequence counter.
  Three fields stand for the environment. Block reads are done by the buffer cache, an
  outside collaborator that may fail: \<open>rbm_ioerr b\<close> says that bitmap block \<open>b\<close> cannot
  be read, \<open>rsum_ioerr so\<close> that the summary block holding counter \<open>so\<close> cannot.
  \<open>uninit_next\<close> is the indeterminate content of an uninitialised 64-bit local
  (see \<open>xfs_rtallocate_extent_block\<close>).
\<close>

record xfs_rtgroup =
  rtg_extents :: xfs_rtxnum_t
  rtg_rsum_cache :: "(nat \<Rightarrow> 8 word) option"
  rtbitmap :: "nat \<Rightarrow> bool"
  rtsummary :: "nat \<Rightarrow> xfs_suminfo_t"
  rbm_atime_sec :: "64 word"
  rbm_newrtbm :: bool
  rbm_ioerr :: "nat \<Rightarrow> bool"
  rsum_ioerr :: "nat \<Rightarrow> bool"
  uninit_next :: xfs_rtxnum_t

subsection \<open>The bitmap and summary codecs (xfs_rtbitmap.c, not part of the file)\<close>

text \<open>
  Modelled from the spec: \<open>xfs_rtx_to_rbmblock\<close> and \<open>xfs_rbmblock_to_rtx\<close> are
  missing. A bitmap block covers \<open>bits_per_bmblock = 2 ^ m_blkbit_log\<close> consecutive
  extents.
\<close>

definition xfs_rtx_to_rbmblock :: "xfs_mount \<Rightarrow> xfs_rtxnum_t \<Rightarrow> xfs_fileoff_t" where
  "xfs_rtx_to_rbmblock mp rtx = drop_bit (m_blkbit_log mp) rtx"


definition rbmblock_of :: "xfs_mount \<Rightarrow> nat \<Rightarrow> nat" where
  "rbmblock_of mp k = k div 2 ^ m_blkbit_log mp"

text \<open>
  Modelled from the spec: \<open>xfs_rtfind_back\<close> is missing. "Starting at rtx, walk backward
  to the first rtx of the maximal free run containing rtx. Returns 0 if the run reaches
  index 0." The walk compares each bit with the bit at the start, so that the same
  function walks over an allocated run. A bit is read from its bitmap block, and the
  walk fails with \<open>EIO\<close> when that block cannot be read.
\<close>

fun rtfind_back_from :: "xfs_mount \<Rightarrow> xfs_rtgroup \<Rightarrow> bool \<Rightarrow> nat \<Rightarrow> error + nat" where
  "rtfind_back_from mp rtg v 0 = Inr 0"
| "rtfind_back_from mp rtg v (Suc k) =
     (if rbm_ioerr rtg (rbmblock_of mp k) then Inl EIO
      else if rtbitmap rtg k \<noteq> v then Inr (Suc k)
      else rtfind_back_from mp rtg v k)"

definition xfs_rtfind_back :: "xfs_mount \<Rightarrow> xfs_rtgroup \<Rightarrow> xfs_rtxnum_t \<Rightarrow> error + xfs_rtxnum_t" where
  "xfs_rtfind_back mp rtg start =
     (if rbm_ioerr rtg (rbmblock_of mp (unat start)) then Inl EIO
      else case rtfind_back_from mp rtg (rtbitmap rtg (unat start)) (unat start) of
             Inl e \<Rightarrow> Inl e
           | Inr k \<Rightarrow> Inr (of_nat k))"

text \<open>
  Modelled from the spec: \<open>xfs_rtfind_forw\<close> is missing. "Symmetric forward walk, capped
  at limit (inclusive)." The allocator adds 1 to the result to get the first extent
  after the run, so the result is the last extent of the run: the last \<open>k \<le> limit\<close>
  such that all bits from the start to \<open>k\<close> equal the bit at the start.
\<close>

function rtfind_forw_from :: "xfs_mount \<Rightarrow> xfs_rtgroup \<Rightarrow> bool \<Rightarrow> nat \<Rightarrow> nat \<Rightarrow> error + nat" where
  "rtfind_forw_from mp rtg v k limit =
     (if limit \<le> k then Inr limit
      else if rbm_ioerr rtg (rbmblock_of mp (Suc k)) then Inl EIO
      else if rtbitmap rtg (Suc k) \<noteq> v then Inr k
      else rtfind_forw_from mp rtg v (Suc k) limit)"
  by pat_completeness auto
termination
  by (relation "measure (\<lambda>(mp, rtg, v, k, limit). limit - k)") auto

declare rtfind_forw_from.simps [simp del]

definition xfs_rtfind_forw ::
  "xfs_mount \<Rightarrow> xfs_rtgroup \<Rightarrow> xfs_rtxnum_t \<Rightarrow> xfs_rtxnum_t \<Rightarrow> error + xfs_rtxnum_t"
where
  "xfs_rtfind_forw mp rtg start limit =
     (if rbm_ioerr rtg (rbmblock_of mp (unat start)) then Inl EIO
      else case rtfind_forw_from mp rtg (rtbitmap rtg (unat start)) (unat start) (unat limit) of
             Inl e \<Rightarrow> Inl e
           | Inr k \<Rightarrow> Inr (of_nat k))"

text \<open>
  Modelled from the spec: \<open>xfs_rtcheck_range\<close> is missing. "Scan len bits; if all equal
  value, return (start+len, true); else return the first rtx where the value differs
  and false."
\<close>

fun rtcheck_range_from ::
  "xfs_mount \<Rightarrow> xfs_rtgroup \<Rightarrow> bool \<Rightarrow> nat \<Rightarrow> nat \<Rightarrow> error + nat \<times> bool"
where
  "rtcheck_range_from mp rtg v k 0 = Inr (k, True)"
| "rtcheck_range_from mp rtg v k (Suc n) =
     (if rbm_ioerr rtg (rbmblock_of mp k) then Inl EIO
      else if rtbitmap rtg k \<noteq> v then Inr (k, False)
      else rtcheck_range_from mp rtg v (Suc k) n)"

definition xfs_rtcheck_range ::
  "xfs_mount \<Rightarrow> xfs_rtgroup \<Rightarrow> xfs_rtxnum_t \<Rightarrow> xfs_rtxlen_t \<Rightarrow> bool \<Rightarrow> error + xfs_rtxnum_t \<times> bool"
where
  "xfs_rtcheck_range mp rtg start len val =
     (case rtcheck_range_from mp rtg val (unat start) (unat len) of
        Inl e \<Rightarrow> Inl e
      | Inr (k, stat) \<Rightarrow> Inr (of_nat k, stat))"

text \<open>
  Modelled from the spec: \<open>xfs_rtmodify_range\<close> is missing. "Write value to len
  consecutive bits, journaling every block touched." A block that cannot be read stops
  the write there with \<open>EIO\<close>; the bits before it are already written.
\<close>

fun rtmodify_range_from ::
  "xfs_mount \<Rightarrow> xfs_rtgroup \<Rightarrow> bool \<Rightarrow> nat \<Rightarrow> nat \<Rightarrow> error option \<times> xfs_rtgroup"
where
  "rtmodify_range_from mp rtg v k 0 = (None, rtg)"
| "rtmodify_range_from mp rtg v k (Suc n) =
     (if rbm_ioerr rtg (rbmblock_of mp k) then (Some EIO, rtg)
      else rtmodify_range_from mp (rtg\<lparr>rtbitmap := (rtbitmap rtg)(k := v)\<rparr>) v (Suc k) n)"

definition xfs_rtmodify_range ::
  "xfs_mount \<Rightarrow> xfs_rtgroup \<Rightarrow> xfs_rtxnum_t \<Rightarrow> xfs_rtxlen_t \<Rightarrow> bool \<Rightarrow> error option \<times> xfs_rtgroup"
where
  "xfs_rtmodify_range mp rtg start len val = rtmodify_range_from mp rtg val (unat start) (unat len)"

text \<open>
  Modelled from the spec: the summary codec is missing. The summary is "a flat row-major
  matrix", the "cell at (L, B) is at offset L * rbmblocks + B"; \<open>get(L, B)\<close> reads the
  count and \<open>modify(L, B, delta)\<close> adds the signed \<open>delta\<close> (a 32-bit two's complement
  value, the counter wraps). The hint array is mutated by allocate and free by "coarse
  invalidation via max": a counter that is nonzero after the update raises the hint of
  its bitmap block to at least \<open>L + 1\<close>.
\<close>

definition xfs_rtsumoffs :: "xfs_mount \<Rightarrow> int \<Rightarrow> xfs_fileoff_t \<Rightarrow> nat" where
  "xfs_rtsumoffs mp log bbno = nat log * unat (sb_rbmblocks mp) + unat bbno"

definition xfs_rtget_summary ::
  "xfs_mount \<Rightarrow> xfs_rtgroup \<Rightarrow> int \<Rightarrow> xfs_fileoff_t \<Rightarrow> error + xfs_suminfo_t"
where
  "xfs_rtget_summary mp rtg log bbno =
     (if rsum_ioerr rtg (xfs_rtsumoffs mp log bbno) then Inl EIO
      else Inr (rtsummary rtg (xfs_rtsumoffs mp log bbno)))"

definition xfs_rtmodify_summary ::
  "xfs_mount \<Rightarrow> xfs_rtgroup \<Rightarrow> int \<Rightarrow> xfs_fileoff_t \<Rightarrow> 32 word \<Rightarrow> error option \<times> xfs_rtgroup"
where
  "xfs_rtmodify_summary mp rtg log bbno delta =
     (let so = xfs_rtsumoffs mp log bbno in
      if rsum_ioerr rtg so then (Some EIO, rtg)
      else
        let v = rtsummary rtg so + delta;
            rtg1 = rtg\<lparr>rtsummary := (rtsummary rtg)(so := v)\<rparr>
        in (None,
            case rtg_rsum_cache rtg of
              None \<Rightarrow> rtg1
            | Some c \<Rightarrow>
                if v \<noteq> 0 \<and> uint (c (unat bbno)) \<le> log
                then rtg1\<lparr>rtg_rsum_cache := Some (c(unat bbno := word_of_int (log + 1)))\<rparr>
                else rtg1))"

text \<open>
  Modelled from the spec: \<open>xfs_rtbuf_cache_relse\<close> is missing. The buffer cache shim is
  a "short-lived per-operation cache of the last touched bitmap and summary blocks"; it
  holds copies of blocks of the two files and no state of its own, so releasing it
  leaves the bitmap, the summary and the hint array as they are.
\<close>

definition xfs_rtbuf_cache_relse :: "xfs_rtgroup \<Rightarrow> xfs_rtgroup" where
  "xfs_rtbuf_cache_relse rtg = rtg"

subsection \<open>xfs_rtany_summary\<close>

text \<open>
  The loop \<open>for (log = high; log >= low; log--)\<close>. It returns \<open>(*maxlog, log)\<close>: the
  level found (or \<open>-1\<close>) and the value of the loop counter at the label \<open>out\<close>.
\<close>

function xfs_rtany_summary_loop ::
  "xfs_mount \<Rightarrow> xfs_rtgroup \<Rightarrow> int \<Rightarrow> xfs_fileoff_t \<Rightarrow> int \<Rightarrow> error + int \<times> int"
where
  "xfs_rtany_summary_loop mp rtg low bbno log =
     (if log \<ge> low then
        (case xfs_rtget_summary mp rtg log bbno of
           Inl e \<Rightarrow> Inl e
         | Inr sumv \<Rightarrow>
             if sumv \<noteq> 0 then Inr (log, log)
             else xfs_rtany_summary_loop mp rtg low bbno (log - 1))
      else Inr (- 1, log))"
  by pat_completeness auto
termination
  by (relation "measure (\<lambda>(mp, rtg, low, bbno, log). nat (log - low + 1))") auto

declare xfs_rtany_summary_loop.simps [simp del]

text \<open>
  \<open>xfs_rtany_summary\<close> returns the error or \<open>*maxlog\<close>, and the group with its hint
  array as the function leaves it. \<open>rsum_cache[bbno] - 1\<close> is computed in \<open>int\<close>, and
  \<open>log + 1\<close> is stored into a byte.
\<close>

definition xfs_rtany_summary ::
  "xfs_mount \<Rightarrow> xfs_rtgroup \<Rightarrow> int \<Rightarrow> int \<Rightarrow> xfs_fileoff_t \<Rightarrow> (error + int) \<times> xfs_rtgroup"
where
  "xfs_rtany_summary mp rtg low high bbno =
     (let high = (case rtg_rsum_cache rtg of
                    Some c \<Rightarrow> min high (uint (c (unat bbno)) - 1)
                  | None \<Rightarrow> high)
      in if rtg_rsum_cache rtg \<noteq> None \<and> low > high then (Inr (- 1), rtg)
         else
           case xfs_rtany_summary_loop mp rtg low bbno high of
             Inl e \<Rightarrow> (Inl e, rtg)
           | Inr (maxlog, log) \<Rightarrow>
               (Inr maxlog,
                case rtg_rsum_cache rtg of
                  Some c \<Rightarrow>
                    if log + 1 < uint (c (unat bbno))
                    then rtg\<lparr>rtg_rsum_cache := Some (c(unat bbno := word_of_int (log + 1)))\<rparr>
                    else rtg
                | None \<Rightarrow> rtg))"

subsection \<open>xfs_rtcopy_summary\<close>

text \<open>
  The inner loop \<open>for (bbno = ...; (xfs_srtblock_t)bbno >= 0; bbno--)\<close> at one level.
  \<open>oargs\<close> and \<open>nargs\<close> share the realtime group and differ in the mount: \<open>omp\<close> is the
  old geometry, \<open>nmp\<close> the new one. The result is the value of \<open>error\<close> and the group
  when the loop is left.
\<close>

lemma sint_pred_64: "sint (b - 1) = sint b - 1" if "0 \<le> sint b" for b :: "64 word"
proof -
  have "sint (b - 1) = signed_take_bit (LENGTH(64) - 1) (sint b - sint (1 :: 64 word))"
    by (rule sint_word_diff)
  also have "\<dots> = signed_take_bit 63 (sint b - 1)" by simp
  also have "\<dots> = sint b - 1"
    using that sint_lt [of b] by (intro signed_take_bit_int_eq_self) simp_all
  finally show ?thesis .
qed

function xfs_rtcopy_summary_bbno ::
  "xfs_mount \<Rightarrow> xfs_mount \<Rightarrow> xfs_rtgroup \<Rightarrow> int \<Rightarrow> xfs_fileoff_t \<Rightarrow> error option \<times> xfs_rtgroup"
where
  "xfs_rtcopy_summary_bbno omp nmp rtg log bbno =
     (if 0 \<le> sint bbno then
        (case xfs_rtget_summary omp rtg log bbno of
           Inl e \<Rightarrow> (Some e, rtg)
         | Inr sumv \<Rightarrow>
             if sumv = 0 then xfs_rtcopy_summary_bbno omp nmp rtg log (bbno - 1)
             else
               (case xfs_rtmodify_summary omp rtg log bbno (- sumv) of
                  (Some e, rtg1) \<Rightarrow> (Some e, rtg1)
                | (None, rtg1) \<Rightarrow>
                    (case xfs_rtmodify_summary nmp rtg1 log bbno sumv of
                       (Some e, rtg2) \<Rightarrow> (Some e, rtg2)
                     | (None, rtg2) \<Rightarrow> xfs_rtcopy_summary_bbno omp nmp rtg2 log (bbno - 1))))
      else (None, rtg))"
  by pat_completeness auto

termination
  by (relation "measure (\<lambda>(omp, nmp, rtg, log, bbno). nat (sint bbno + 1))")
     (auto simp: sint_pred_64)

declare xfs_rtcopy_summary_bbno.simps [simp del]

text \<open>The outer loop \<open>for (log = oargs->mp->m_rsumlevels - 1; log >= 0; log--)\<close>.\<close>

function xfs_rtcopy_summary_log ::
  "xfs_mount \<Rightarrow> xfs_mount \<Rightarrow> xfs_rtgroup \<Rightarrow> int \<Rightarrow> error option \<times> xfs_rtgroup"
where
  "xfs_rtcopy_summary_log omp nmp rtg log =
     (if 0 \<le> log then
        (case xfs_rtcopy_summary_bbno omp nmp rtg log (ucast (sb_rbmblocks omp - 1)) of
           (Some e, rtg1) \<Rightarrow> (Some e, rtg1)
         | (None, rtg1) \<Rightarrow> xfs_rtcopy_summary_log omp nmp rtg1 (log - 1))
      else (None, rtg))"
  by pat_completeness auto
termination
  by (relation "measure (\<lambda>(omp, nmp, rtg, log). nat (log + 1))") auto

declare xfs_rtcopy_summary_log.simps [simp del]

text \<open>
  \<open>xfs_rtcopy_summary\<close>: the loops leave \<open>error\<close> set or clear, the label \<open>out\<close> releases
  the buffer cache, and the function ends in \<open>return 0\<close>.
\<close>

definition xfs_rtcopy_summary ::
  "xfs_mount \<Rightarrow> xfs_mount \<Rightarrow> xfs_rtgroup \<Rightarrow> error option \<times> xfs_rtgroup"
where
  "xfs_rtcopy_summary omp nmp rtg =
     (case xfs_rtcopy_summary_log omp nmp rtg (int (m_rsumlevels omp) - 1) of
        (error, rtg1) \<Rightarrow> (None, xfs_rtbuf_cache_relse rtg1))"

subsection \<open>xfs_rtallocate_range\<close>

definition xfs_rtallocate_range ::
  "xfs_mount \<Rightarrow> xfs_rtgroup \<Rightarrow> xfs_rtxnum_t \<Rightarrow> xfs_rtxlen_t \<Rightarrow> error option \<times> xfs_rtgroup"
where
  "xfs_rtallocate_range mp rtg start len =
     (let end = start + ucast len - 1 in
      (case xfs_rtfind_back mp rtg start of
         Inl e \<Rightarrow> (Some e, rtg)
       | Inr preblock \<Rightarrow>
      (case xfs_rtfind_forw mp rtg end (rtg_extents rtg - 1) of
         Inl e \<Rightarrow> (Some e, rtg)
       | Inr postblock \<Rightarrow>
      (case xfs_rtmodify_summary mp rtg (xfs_highbit64 (postblock + 1 - preblock))
              (xfs_rtx_to_rbmblock mp preblock) (- 1) of
         (Some e, rtg1) \<Rightarrow> (Some e, rtg1)
       | (None, rtg1) \<Rightarrow>
      (case (if preblock < start
             then xfs_rtmodify_summary mp rtg1 (xfs_highbit64 (start - preblock))
                    (xfs_rtx_to_rbmblock mp preblock) 1
             else (None, rtg1)) of
         (Some e, rtg2) \<Rightarrow> (Some e, rtg2)
       | (None, rtg2) \<Rightarrow>
      (case (if postblock > end
             then xfs_rtmodify_summary mp rtg2 (xfs_highbit64 (postblock - end))
                    (xfs_rtx_to_rbmblock mp (end + 1)) 1
             else (None, rtg2)) of
         (Some e, rtg3) \<Rightarrow> (Some e, rtg3)
       | (None, rtg3) \<Rightarrow> xfs_rtmodify_range mp rtg3 start len False))))))"

subsection \<open>Clamping, and the scan of one bitmap block\<close>

text \<open>
  \<open>xfs_rtallocate_clamp_len\<close>: the subtraction is done in 64 bits and stored into the
  32-bit \<open>ret\<close>.
\<close>

definition xfs_rtallocate_clamp_len ::
  "xfs_rtgroup \<Rightarrow> xfs_rtxnum_t \<Rightarrow> xfs_rtxlen_t \<Rightarrow> xfs_rtxlen_t \<Rightarrow> xfs_rtxlen_t"
where
  "xfs_rtallocate_clamp_len rtg startrtx rtxlen prd =
     xfs_rtalloc_align_len (ucast (min (rtg_extents rtg) (startrtx + ucast rtxlen) - startrtx)) prd"




subsection \<open>xfs_rtallocate_extent_exact\<close>

text \<open>The two \<open>ASSERT\<close>s are compiled out of a production kernel and check nothing.\<close>

definition xfs_rtallocate_extent_exact ::
  "xfs_mount \<Rightarrow> xfs_rtgroup \<Rightarrow> xfs_rtxnum_t \<Rightarrow> xfs_rtxlen_t \<Rightarrow> xfs_rtxlen_t \<Rightarrow> xfs_rtxlen_t \<Rightarrow>
   error + xfs_rtxnum_t \<times> xfs_rtxlen_t"
where
  "xfs_rtallocate_extent_exact mp rtg start minlen maxlen prd =
     (let scanlen = xfs_rtallocate_clamp_len rtg start maxlen prd in
      if scanlen < minlen then Inl ENOSPC
      else
        (case xfs_rtcheck_range mp rtg start scanlen True of
           Inl e \<Rightarrow> Inl e
         | Inr (next, isfree) \<Rightarrow>
             if isfree then Inr (start, scanlen)
             else
               (let alloclen = (ucast (next - start) :: xfs_rtxlen_t) in
                if alloclen < minlen then Inl ENOSPC
                else
                  (let alloclen = xfs_rtalloc_align_len alloclen prd in
                   if alloclen < minlen then Inl ENOSPC
                   else Inr (start, alloclen)))))"

subsection \<open>xfs_rtallocate_extent_near\<close>








subsection \<open>xfs_rtalloc_sumlevel and xfs_rtallocate_extent_size\<close>











subsection \<open>xfs_rtpick_extent\<close>


subsection \<open>Reading the state\<close>

definition summary_count :: "xfs_mount \<Rightarrow> xfs_rtgroup \<Rightarrow> int \<Rightarrow> xfs_fileoff_t \<Rightarrow> xfs_suminfo_t" where
  "summary_count mp rtg log bbno = rtsummary rtg (xfs_rtsumoffs mp log bbno)"

definition summary_readable :: "xfs_mount \<Rightarrow> xfs_rtgroup \<Rightarrow> int \<Rightarrow> xfs_fileoff_t \<Rightarrow> bool" where
  "summary_readable mp rtg log bbno = (\<not> rsum_ioerr rtg (xfs_rtsumoffs mp log bbno))"

definition set_rsum_cache :: "xfs_rtgroup \<Rightarrow> xfs_fileoff_t \<Rightarrow> int \<Rightarrow> xfs_rtgroup" where
  "set_rsum_cache rtg bbno v =
     (case rtg_rsum_cache rtg of
        None \<Rightarrow> rtg
      | Some c \<Rightarrow> rtg\<lparr>rtg_rsum_cache := Some (c(unat bbno := word_of_int v))\<rparr>)"

definition rsum_cache_at :: "xfs_rtgroup \<Rightarrow> xfs_fileoff_t \<Rightarrow> int option" where
  "rsum_cache_at rtg bbno = map_option (\<lambda>c. uint (c (unat bbno))) (rtg_rsum_cache rtg)"

subsection \<open>Summary updates as the spec words them\<close>

text \<open>
  \<open>summary_add mp s L B d\<close>: the summary array \<open>s\<close> with \<open>d\<close> added to the counter of size
  class \<open>L\<close> and bitmap block \<open>B\<close>. \<open>clear_range bm s n\<close>: the bitmap \<open>bm\<close> with the \<open>n\<close>
  bits from \<open>s\<close> on cleared (allocated).
\<close>

definition summary_add ::
  "xfs_mount \<Rightarrow> (nat \<Rightarrow> xfs_suminfo_t) \<Rightarrow> int \<Rightarrow> nat \<Rightarrow> 32 word \<Rightarrow> (nat \<Rightarrow> xfs_suminfo_t)"
where
  "summary_add mp s L B d =
     s(nat L * unat (sb_rbmblocks mp) + B := s (nat L * unat (sb_rbmblocks mp) + B) + d)"

definition clear_range :: "(nat \<Rightarrow> bool) \<Rightarrow> nat \<Rightarrow> nat \<Rightarrow> (nat \<Rightarrow> bool)" where
  "clear_range bm s n = (\<lambda>k. if s \<le> k \<and> k < s + n then False else bm k)"

text \<open>
  The summary after an allocation of \<open>[start, start + len)\<close> out of the free run
  \<open>[pre, post)\<close>: the run leaves its class, the left and right remnants enter theirs.
\<close>

definition allocated_summary ::
  "xfs_mount \<Rightarrow> (nat \<Rightarrow> xfs_suminfo_t) \<Rightarrow> nat \<Rightarrow> nat \<Rightarrow> nat \<Rightarrow> nat \<Rightarrow> (nat \<Rightarrow> xfs_suminfo_t)"
where
  "allocated_summary mp s pre post start len =
     (let s1 = summary_add mp s (highbit_nat (post - pre)) (rbmblock_of mp pre) (- 1);
          s2 = (if pre < start
                then summary_add mp s1 (highbit_nat (start - pre)) (rbmblock_of mp pre) 1
                else s1)
      in if start + len < post
         then summary_add mp s2 (highbit_nat (post - (start + len))) (rbmblock_of mp (start + len)) 1
         else s2)"

subsection \<open>A small volume for concrete runs\<close>

text \<open>
  Sixteen extents of one block each, four extents to a bitmap block (\<open>m_blkbit_log = 2\<close>),
  hence four bitmap blocks and five summary levels. \<open>rtg_full\<close> is the group with every
  extent allocated: no free bit, every counter zero, the hint array as
  \<open>xfs_alloc_rsum_cache\<close> fills it.
\<close>

definition ex_mount :: xfs_mount where
  "ex_mount = \<lparr>sb_rblocks = 16, sb_rextsize = 1, sb_rextents = 16, sb_rbmblocks = 4,
     sb_logblocks = 64, m_rsumlevels = 5, m_blkbit_log = 2\<rparr>"

definition hint_init :: "nat \<Rightarrow> 8 word" where
  "hint_init b = 255"

definition no_ioerr :: "nat \<Rightarrow> bool" where
  "no_ioerr b = False"

definition rtg_full :: xfs_rtgroup where
  "rtg_full = \<lparr>rtg_extents = 16, rtg_rsum_cache = Some hint_init,
     rtbitmap = (\<lambda>k. False), rtsummary = (\<lambda>so. 0),
     rbm_atime_sec = 0, rbm_newrtbm = False,
     rbm_ioerr = no_ioerr, rsum_ioerr = no_ioerr, uninit_next = 0\<rparr>"

subsection \<open>Trying candidates in order\<close>



subsection \<open>Reading the picker\<close>




subsection \<open>The summary copy as the spec words it\<close>

text \<open>
  "For every (L, B) with nonzero count in the old geometry, subtract it there and add it
  to (L, B) in the new geometry", with the levels descending and, within a level, the
  bitmap blocks descending.
\<close>

definition copy_cell :: "xfs_mount \<Rightarrow> xfs_mount \<Rightarrow> int \<Rightarrow> xfs_rtgroup \<Rightarrow> nat \<Rightarrow> xfs_rtgroup" where
  "copy_cell omp nmp log rtg B =
     (let c = summary_count omp rtg log (of_nat B) in
      if c = 0 then rtg
      else snd (xfs_rtmodify_summary nmp
                  (snd (xfs_rtmodify_summary omp rtg log (of_nat B) (- c))) log (of_nat B) c))"

definition copy_level :: "xfs_mount \<Rightarrow> xfs_mount \<Rightarrow> xfs_rtgroup \<Rightarrow> nat \<Rightarrow> xfs_rtgroup" where
  "copy_level omp nmp rtg L =
     foldl (copy_cell omp nmp (int L)) rtg (rev [0..<unat (sb_rbmblocks omp)])"

definition copy_summary_spec :: "xfs_mount \<Rightarrow> xfs_mount \<Rightarrow> xfs_rtgroup \<Rightarrow> xfs_rtgroup" where
  "copy_summary_spec omp nmp rtg = foldl (copy_level omp nmp) rtg (rev [0..<m_rsumlevels omp])"

text \<open>
  \<open>rtg_free\<close> is the example volume with all sixteen extents free: one free run of
  length 16 that starts in bitmap block 0, counted at level 4. \<open>ex_mount_grown\<close> is the
  geometry of the same volume grown to 24 extents.
\<close>

definition rtg_free :: xfs_rtgroup where
  "rtg_free = \<lparr>rtg_extents = 16, rtg_rsum_cache = Some hint_init,
     rtbitmap = (\<lambda>k. k < 16), rtsummary = (\<lambda>so. if so = 16 then 1 else 0),
     rbm_atime_sec = 0, rbm_newrtbm = False,
     rbm_ioerr = no_ioerr, rsum_ioerr = no_ioerr, uninit_next = 0\<rparr>"

definition ex_mount_grown :: xfs_mount where
  "ex_mount_grown = \<lparr>sb_rblocks = 24, sb_rextsize = 1, sb_rextents = 24, sb_rbmblocks = 6,
     sb_logblocks = 64, m_rsumlevels = 5, m_blkbit_log = 2\<rparr>"

text \<open>
  \<open>rtg_part\<close> is the example volume with extents 5 and 6 allocated: a free run of
  length 5 from extent 0 (bitmap block 0, level 2, counter \<open>2 * 4 + 0\<close>) and a free run
  of length 9 from extent 7 (bitmap block 1, level 3, counter \<open>3 * 4 + 1\<close>).
\<close>

definition rtg_part :: xfs_rtgroup where
  "rtg_part = \<lparr>rtg_extents = 16, rtg_rsum_cache = Some hint_init,
     rtbitmap = (\<lambda>k. k < 5 \<or> (7 \<le> k \<and> k < 16)),
     rtsummary = (\<lambda>so. if so = 8 \<or> so = 13 then 1 else 0),
     rbm_atime_sec = 0, rbm_newrtbm = False,
     rbm_ioerr = no_ioerr, rsum_ioerr = no_ioerr, uninit_next = 0\<rparr>"

text \<open>
  The same volume where the summary block holding counter 24, the cell (4, 0) of the
  grown geometry, cannot be read.
\<close>

definition rsum_ioerr_24 :: "nat \<Rightarrow> bool" where
  "rsum_ioerr_24 so = (so = 24)"

definition rtg_free_fault :: xfs_rtgroup where
  "rtg_free_fault = rtg_free\<lparr>rsum_ioerr := rsum_ioerr_24\<rparr>"

subsection \<open>Free ranges\<close>

text \<open>
  \<open>range_free rtg s n\<close>: the \<open>n\<close> extents from \<open>s\<close> on are all free.
  \<open>bitmap_readable rtg\<close>: no bitmap block fails to be read.
\<close>

definition range_free :: "xfs_rtgroup \<Rightarrow> nat \<Rightarrow> nat \<Rightarrow> bool" where
  "range_free rtg s n = (\<forall>k\<in>{s..<s + n}. rtbitmap rtg k)"

definition bitmap_readable :: "xfs_rtgroup \<Rightarrow> bool" where
  "bitmap_readable rtg = (\<forall>b. \<not> rbm_ioerr rtg b)"

definition summary_all_readable :: "xfs_rtgroup \<Rightarrow> bool" where
  "summary_all_readable rtg = (\<forall>so. \<not> rsum_ioerr rtg so)"

subsection \<open>The size-first search as the spec words it\<close>








subsection \<open>The top-level allocator: xfs_rtallocate\<close>











subsection \<open>The public interface: xfs_bmap_rtalloc\<close>














subsection \<open>Growing the realtime area: xfs_growfs_rt\<close>

text \<open>
  The filesystem as \<open>xfs_growfs_rt\<close> sees it: the mount with its superblock, the
  realtime group with bitmap, summary and hint array, \<open>sb_blocklog\<close> (the log2 of the
  block size), and \<open>m_growlock\<close>, \<open>True\<close> while the mutex is held. \<open>mutex_trylock\<close> fails
  exactly when it is held.
\<close>

record xfs_fs =
  fs_mount :: xfs_mount
  fs_rtg :: xfs_rtgroup
  sb_blocklog :: nat
  m_growlock :: bool

text \<open>The input structure \<open>xfs_growfs_rt_t\<close>.\<close>

record xfs_growfs_rt_t =
  newblocks :: "64 word"
  extsize :: "32 word"

text \<open>
  Modelled from the spec: what \<open>xfs_growfs_rt\<close> asks of its collaborators (privilege,
  the realtime device, the feature bits, the superblock verifier, the buffer cache, the
  geometry helpers of \<open>xfs_rtbitmap.c\<close>) is missing, and each is a parameter of the
  model with no assumption on its value. The three steps that do the work once the
  request is validated, \<open>xfs_growfs_rtg\<close>, \<open>xfs_growfs_rt_fixup_extsize\<close> and
  \<open>xfs_update_secondary_sbs\<close>, run their own transactions; they are parameters as well,
  state transformers that may fail, and nothing is assumed of them.
\<close>

record xfs_growfs_env =
  capable_sys_admin :: bool
  is_realtime_mount :: bool
  has_rmapbt :: bool
  has_reflink :: bool
  has_quota :: bool
  sb_validate_fsb_count :: "64 word \<Rightarrow> error option"
  buf_read_uncached :: "64 word \<Rightarrow> error option"
  rtbitmap_blockcount :: "64 word \<Rightarrow> 32 word"
  rtsummary_blockcount :: "nat \<Rightarrow> 32 word \<Rightarrow> 32 word"
  compute_rextslog :: "64 word \<Rightarrow> nat"
  growfs_rtg :: "xfs_fs \<Rightarrow> 64 word \<Rightarrow> 32 word \<Rightarrow> error option \<times> xfs_fs"
  growfs_rt_fixup_extsize :: "xfs_fs \<Rightarrow> error option \<times> xfs_fs"
  update_secondary_sbs :: "xfs_fs \<Rightarrow> error option \<times> xfs_fs"

definition XFS_FSB_TO_B :: "xfs_fs \<Rightarrow> 32 word \<Rightarrow> 64 word" where
  "XFS_FSB_TO_B fs fsbno = push_bit (sb_blocklog fs) (ucast fsbno)"

definition XFS_MAX_RTEXTSIZE :: "64 word" where
  "XFS_MAX_RTEXTSIZE = 1024 * 1024 * 1024"

definition XFS_MIN_RTEXTSIZE :: "64 word" where
  "XFS_MIN_RTEXTSIZE = 4 * 1024"

text \<open>
  \<open>xfs_growfs_rt\<close>: the return value (\<open>None\<close> for 0) and the filesystem as the call
  leaves it. The checks are in the order of the source; every path from the
  \<open>mutex_trylock\<close> on goes through \<open>out_unlock\<close>.
\<close>

definition xfs_growfs_rt ::
  "xfs_growfs_env \<Rightarrow> xfs_fs \<Rightarrow> xfs_growfs_rt_t \<Rightarrow> error option \<times> xfs_fs"
where
  "xfs_growfs_rt env fs inp =
     (let old_rextsize = sb_rextsize (fs_mount fs)
      in if \<not> capable_sys_admin env then (Some EPERM, fs)
         else if \<not> is_realtime_mount env then (Some EINVAL, fs)
         else if m_growlock fs then (Some EWOULDBLOCK, fs)
         else
           (let fs = fs\<lparr>m_growlock := True\<rparr>;
                (error, fs) =
                  (if newblocks inp \<le> sb_rblocks (fs_mount fs) then (Some EINVAL, fs)
                   else if sb_rblocks (fs_mount fs) > 0 \<and>
                           extsize inp \<noteq> sb_rextsize (fs_mount fs) then (Some EINVAL, fs)
                   else if XFS_FSB_TO_B fs (extsize inp) > XFS_MAX_RTEXTSIZE \<or>
                           XFS_FSB_TO_B fs (extsize inp) < XFS_MIN_RTEXTSIZE then (Some EINVAL, fs)
                   else if has_rmapbt env \<or> has_reflink env \<or> has_quota env
                   then (Some EOPNOTSUPP, fs)
                   else
                     (case sb_validate_fsb_count env (newblocks inp) of
                        Some e \<Rightarrow> (Some e, fs)
                      | None \<Rightarrow>
                     (case buf_read_uncached env (newblocks inp - 1) of
                        Some e \<Rightarrow> (Some e, fs)
                      | None \<Rightarrow>
                     (let nrextents = newblocks inp div ucast (extsize inp)
                      in if nrextents = 0 then (Some EINVAL, fs)
                         else
                           (let nrbmblocks = rtbitmap_blockcount env nrextents;
                                nrsumblocks = rtsummary_blockcount env
                                  (compute_rextslog env nrextents + 1) nrbmblocks
                            in if nrsumblocks > drop_bit 1 (sb_logblocks (fs_mount fs))
                               then (Some EINVAL, fs)
                               else
                                 (case growfs_rtg env fs (newblocks inp) (extsize inp) of
                                    (Some e, fs) \<Rightarrow> (Some e, fs)
                                  | (None, fs) \<Rightarrow>
                                 (case (if old_rextsize \<noteq> extsize inp
                                        then growfs_rt_fixup_extsize env fs
                                        else (None, fs)) of
                                    (Some e, fs) \<Rightarrow> (Some e, fs)
                                  | (None, fs) \<Rightarrow> update_secondary_sbs env fs)))))))
            in (error, fs\<lparr>m_growlock := False\<rparr>)))"

text \<open>
  A request of sixteen blocks on the sixteen-block volume of above: the current size. The
  rest of \<open>ex_env\<close> lets every other check pass; its three working steps report \<open>EIO\<close>.
\<close>

definition ex_fs :: xfs_fs where
  "ex_fs = \<lparr>fs_mount = ex_mount, fs_rtg = rtg_part, sb_blocklog = 12, m_growlock = False\<rparr>"

definition ex_env :: xfs_growfs_env where
  "ex_env = \<lparr>capable_sys_admin = True, is_realtime_mount = True, has_rmapbt = False,
     has_reflink = False, has_quota = False,
     sb_validate_fsb_count = (\<lambda>n. None), buf_read_uncached = (\<lambda>b. None),
     rtbitmap_blockcount = (\<lambda>n. 1), rtsummary_blockcount = (\<lambda>l b. 1),
     compute_rextslog = (\<lambda>n. 4),
     growfs_rtg = (\<lambda>fs n e. (Some EIO, fs)),
     growfs_rt_fixup_extsize = (\<lambda>fs. (Some EIO, fs)),
     update_secondary_sbs = (\<lambda>fs. (Some EIO, fs))\<rparr>"

definition ex_in :: "64 word \<Rightarrow> xfs_growfs_rt_t" where
  "ex_in n = \<lparr>newblocks = n, extsize = 1\<rparr>"

section \<open>Properties\<close>

subsection \<open>The min/max aligner\<close>

lemma round_up_alt:
  assumes p: "0 < p"
  shows "round_up n p = (if n mod p = 0 then n else n + (p - n mod p))"
proof -
  define q r where "q = n div p" and "r = n mod p"
  have n: "n = q * p + r" and r: "r < p" using p by (simp_all add: q_def r_def)
  show ?thesis
  proof (cases "r = 0")
    case True
    have "(q * p + p - 1) div p = q" using p
      by (intro div_nat_eqI) (simp_all add: algebra_simps)
    moreover have "n = q * p" using n True by simp
    ultimately have "round_up n p = n" by (simp add: round_up_def)
    then show ?thesis using True by (simp add: r_def)
  next
    case False
    have "(q * p + r + p - 1) div p = q + 1" using p r False
      by (intro div_nat_eqI) (simp_all add: algebra_simps)
    then have "round_up (q * p + r) p = q * p + r + (p - r)" using r by (simp add: round_up_def algebra_simps)
    then have "round_up n p = n + (p - r)" using n by simp
    then show ?thesis using False by (simp add: r_def)
  qed
qed

lemma align_minmax_core:
  fixes minlen maxlen prd :: "32 word"
  assumes p: "prd \<noteq> 0" and fit: "round_up (unat minlen) (unat prd) < 2 ^ 32"
  shows "unat (if minlen mod prd \<noteq> 0 then minlen + (prd - minlen mod prd) else minlen) = round_up (unat minlen) (unat prd)"
    and "unat (if maxlen mod prd \<noteq> 0 then maxlen - maxlen mod prd else maxlen) = round_down (unat maxlen) (unat prd)"
proof -
  have p': "0 < unat prd" using p by (simp add: unat_gt_0)
  have m: "unat (minlen mod prd) = unat minlen mod unat prd" by (simp add: unat_mod)
  have lt: "unat minlen mod unat prd < unat prd" using p' by simp
  show "unat (if minlen mod prd \<noteq> 0 then minlen + (prd - minlen mod prd) else minlen) = round_up (unat minlen) (unat prd)"
  proof (cases "minlen mod prd = 0")
    case True
    then have "unat minlen mod unat prd = 0" using m by simp
    then show ?thesis using True p' by (simp add: round_up_alt)
  next
    case False
    then have nz: "unat minlen mod unat prd \<noteq> 0" using unat_eq_0[of "minlen mod prd"] m by simp
    have le: "minlen mod prd \<le> prd" using lt m by (simp add: word_le_nat_alt)
    have s: "unat (prd - minlen mod prd) = unat prd - unat minlen mod unat prd"
      using le m by (simp add: unat_sub)
    have r: "round_up (unat minlen) (unat prd) = unat minlen + (unat prd - unat minlen mod unat prd)"
      using nz p' by (simp add: round_up_alt)
    have "unat minlen + unat (prd - minlen mod prd) < 2 ^ LENGTH(32)"
      using fit r s by simp
    then have "unat (minlen + (prd - minlen mod prd)) = unat minlen + unat (prd - minlen mod prd)"
      by (rule unat_add_lem [THEN iffD1])
    then show ?thesis using False r s by simp
  qed
  have "maxlen mod prd \<le> maxlen" by (simp add: word_le_nat_alt unat_mod)
  then have "unat (maxlen - maxlen mod prd) = unat maxlen - unat maxlen mod unat prd"
    by (simp add: unat_sub unat_mod)
  moreover have "maxlen mod prd = 0 \<longleftrightarrow> unat maxlen mod unat prd = 0"
    by (metis unat_eq_0 unat_mod)
  ultimately show "unat (if maxlen mod prd \<noteq> 0 then maxlen - maxlen mod prd else maxlen) = round_down (unat maxlen) (unat prd)"
    by (simp add: round_down_def)
qed


text \<open>
  C10. When rounding \<open>minlen\<close> up and \<open>maxlen\<close> down to multiples of \<open>prod\<close> would
  give \<open>maxlen < minlen\<close>, the aligner stores \<open>prod = 1\<close> and leaves \<open>minlen\<close> and
  \<open>maxlen\<close> exactly as passed; otherwise it stores the rounded pair, which satisfies
  \<open>minlen \<le> maxlen\<close> with both multiples of \<open>prod\<close>. The caller invokes the aligner
  only for \<open>prod > 1\<close>, with lengths far below \<open>2^32\<close>: the rounded-up \<open>minlen\<close> is
  representable.
\<close>

theorem xfs_rtalloc_align_minmax_frame:
  assumes p: "prd \<noteq> 0" and fit: "round_up (unat minlen) (unat prd) < 2 ^ 32"
  shows "\<exists>mn mx p. xfs_rtalloc_align_minmax minlen maxlen prd = Some (mn, mx, p) \<and>
     (if round_down (unat maxlen) (unat prd) < round_up (unat minlen) (unat prd)
      then p = 1 \<and> mn = minlen \<and> mx = maxlen
      else p = prd \<and> unat mn = round_up (unat minlen) (unat prd) \<and>
           unat mx = round_down (unat maxlen) (unat prd) \<and>
           mn \<le> mx \<and> mn mod prd = 0 \<and> mx mod prd = 0)"
proof -
  let ?mn = "if minlen mod prd \<noteq> 0 then minlen + (prd - minlen mod prd) else minlen"
  let ?mx = "if maxlen mod prd \<noteq> 0 then maxlen - maxlen mod prd else maxlen"
  have mn: "unat ?mn = round_up (unat minlen) (unat prd)"
    and mx: "unat ?mx = round_down (unat maxlen) (unat prd)"
    using align_minmax_core [OF p fit] by blast+
  have lt: "?mx < ?mn \<longleftrightarrow> round_down (unat maxlen) (unat prd) < round_up (unat minlen) (unat prd)"
    unfolding word_less_nat_alt mn mx ..
  have def: "xfs_rtalloc_align_minmax minlen maxlen prd =
      (if ?mx < ?mn then Some (minlen, maxlen, 1) else Some (?mn, ?mx, prd))"
    using p by (simp add: xfs_rtalloc_align_minmax_def Let_def)
  have dmn: "?mn mod prd = 0"
  proof -
    have "unat (?mn mod prd) = 0" unfolding unat_mod mn by (simp add: round_up_def)
    then show ?thesis unfolding unat_eq_0 .
  qed
  have dmx: "?mx mod prd = 0"
  proof -
    have "unat (?mx mod prd) = 0" unfolding unat_mod mx by (simp add: round_down_def)
    then show ?thesis unfolding unat_eq_0 .
  qed
  show ?thesis
  proof (cases "?mx < ?mn")
    case True
    then show ?thesis using def lt by simp
  next
    case False
    then have "?mn \<le> ?mx" by simp
    then show ?thesis using False def lt mn mx dmn dmx by simp
  qed
qed

theorem xfs_rtalloc_align_minmax_frame_witness:
  "(\<exists>mn mx. xfs_rtalloc_align_minmax 5 50 8 = Some (mn, mx, 8) \<and> unat mn = 8 \<and> unat mx = 48) \<and>
   xfs_rtalloc_align_minmax 5 7 8 = Some (5, 7, 1)"
  using xfs_rtalloc_align_minmax_frame [of 8 5 50] xfs_rtalloc_align_minmax_frame [of 8 5 7]
  by (simp add: round_up_def round_down_def) blast

subsection \<open>The summary scan and the hint array\<close>

lemma get_summary_readable:
  "summary_readable mp rtg log bbno \<Longrightarrow>
   xfs_rtget_summary mp rtg log bbno = Inr (summary_count mp rtg log bbno)"
  by (simp add: xfs_rtget_summary_def summary_readable_def summary_count_def)

lemma any_summary_loop_found:
  assumes "low \<le> L" and "L \<le> hi"
    and "summary_count mp rtg L bbno \<noteq> 0"
    and "\<forall>K. L < K \<and> K \<le> hi \<longrightarrow> summary_count mp rtg K bbno = 0"
    and "\<forall>K. L \<le> K \<and> K \<le> hi \<longrightarrow> summary_readable mp rtg K bbno"
  shows "xfs_rtany_summary_loop mp rtg low bbno hi = Inr (L, L)"
  using assms
proof (induction "nat (hi - L)" arbitrary: hi)
  case 0
  then have "hi = L" by simp
  then show ?case using 0
    by (subst xfs_rtany_summary_loop.simps) (simp add: get_summary_readable)
next
  case (Suc n)
  then have lt: "L < hi" by linarith
  have c0: "summary_count mp rtg hi bbno = 0" using Suc.prems lt by simp
  have rd: "summary_readable mp rtg hi bbno" using Suc.prems lt by simp
  have "xfs_rtany_summary_loop mp rtg low bbno (hi - 1) = Inr (L, L)"
    using Suc lt by (intro Suc.hyps(1)) auto
  then show ?case using Suc.prems lt c0 rd
    by (subst xfs_rtany_summary_loop.simps) (simp add: get_summary_readable)
qed

lemma any_summary_loop_none:
  assumes "low - 1 \<le> hi"
    and "\<forall>K. low \<le> K \<and> K \<le> hi \<longrightarrow> summary_count mp rtg K bbno = 0"
    and "\<forall>K. low \<le> K \<and> K \<le> hi \<longrightarrow> summary_readable mp rtg K bbno"
  shows "xfs_rtany_summary_loop mp rtg low bbno hi = Inr (- 1, low - 1)"
  using assms
proof (induction "nat (hi - low + 1)" arbitrary: hi)
  case 0
  then have "hi = low - 1" by simp
  then show ?case by (subst xfs_rtany_summary_loop.simps) simp
next
  case (Suc n)
  then have le: "low \<le> hi" by linarith
  have c0: "summary_count mp rtg hi bbno = 0" using Suc.prems le by simp
  have rd: "summary_readable mp rtg hi bbno" using Suc.prems le by simp
  have "xfs_rtany_summary_loop mp rtg low bbno (hi - 1) = Inr (- 1, low - 1)"
    using Suc le by (intro Suc.hyps(1)) auto
  then show ?case using le c0 rd
    by (subst xfs_rtany_summary_loop.simps) (simp add: get_summary_readable)
qed


text \<open>
  C5 (as amended). With a hint array present, \<open>xfs_rtany_summary\<close> scans the levels
  downward from \<open>min(high, hint[B] - 1)\<close> to \<open>low\<close> and returns the first level whose
  counter is nonzero, or \<open>-1\<close>. The hint is lowered to \<open>log + 1\<close>, where \<open>log\<close> is the
  loop counter when the scan ends: to \<open>L + 1\<close> when level \<open>L\<close> is found, and to \<open>low\<close>
  (not to 0) when every scanned level is empty. When \<open>low\<close> exceeds the starting level
  nothing is scanned and the hint is left as it is.
\<close>

theorem xfs_rtany_summary_hint:
  assumes cache: "rtg_rsum_cache rtg = Some c"
    and hi': "hi' = min hi (uint (c (unat bbno)) - 1)"
    and low: "0 \<le> low"
    and rd: "\<forall>K. low \<le> K \<and> K \<le> hi' \<longrightarrow> summary_readable mp rtg K bbno"
  shows "(hi' < low \<longrightarrow> xfs_rtany_summary mp rtg low hi bbno = (Inr (- 1), rtg)) \<and>
    (\<forall>L. low \<le> L \<and> L \<le> hi' \<and> summary_count mp rtg L bbno \<noteq> 0 \<and>
         (\<forall>K. L < K \<and> K \<le> hi' \<longrightarrow> summary_count mp rtg K bbno = 0) \<longrightarrow>
       xfs_rtany_summary mp rtg low hi bbno = (Inr L, set_rsum_cache rtg bbno (L + 1))) \<and>
    (low \<le> hi' \<and> (\<forall>K. low \<le> K \<and> K \<le> hi' \<longrightarrow> summary_count mp rtg K bbno = 0) \<longrightarrow>
       xfs_rtany_summary mp rtg low hi bbno = (Inr (- 1), set_rsum_cache rtg bbno low))"
proof (intro conjI allI impI)
  assume "hi' < low"
  then show "xfs_rtany_summary mp rtg low hi bbno = (Inr (- 1), rtg)"
    using cache hi' by (simp add: xfs_rtany_summary_def)
next
  fix L
  assume a: "low \<le> L \<and> L \<le> hi' \<and> summary_count mp rtg L bbno \<noteq> 0 \<and>
         (\<forall>K. L < K \<and> K \<le> hi' \<longrightarrow> summary_count mp rtg K bbno = 0)"
  have loop: "xfs_rtany_summary_loop mp rtg low bbno hi' = Inr (L, L)"
    using a rd by (intro any_summary_loop_found) auto
  have le: "L + 1 \<le> uint (c (unat bbno))" using a hi' by simp
  have run: "xfs_rtany_summary mp rtg low hi bbno =
      (Inr L, if L + 1 < uint (c (unat bbno))
              then rtg\<lparr>rtg_rsum_cache := Some (c(unat bbno := word_of_int (L + 1)))\<rparr> else rtg)"
  proof -
    have h: "min hi (uint (c (unat bbno)) - 1) = hi'" using hi' by simp
    show ?thesis using a
      by (simp add: xfs_rtany_summary_def cache Let_def h loop del: of_int_add)
  qed
  show "xfs_rtany_summary mp rtg low hi bbno = (Inr L, set_rsum_cache rtg bbno (L + 1))"
  proof (cases "L + 1 < uint (c (unat bbno))")
    case True
    then show ?thesis unfolding run by (simp add: set_rsum_cache_def cache del: of_int_add)
  next
    case False
    then have "word_of_int (L + 1) = c (unat bbno)" using le
      by (metis antisym_conv2 word_of_int_uint)
    moreover have "rtg\<lparr>rtg_rsum_cache := Some c\<rparr> = rtg"
      using cache by (cases rtg) simp
    ultimately have "set_rsum_cache rtg bbno (L + 1) = rtg"
      unfolding set_rsum_cache_def cache by (simp del: of_int_add)
    then show ?thesis unfolding run using False by simp
  qed
next
  assume a: "low \<le> hi' \<and> (\<forall>K. low \<le> K \<and> K \<le> hi' \<longrightarrow> summary_count mp rtg K bbno = 0)"
  have loop: "xfs_rtany_summary_loop mp rtg low bbno hi' = Inr (- 1, low - 1)"
    using a rd by (intro any_summary_loop_none) auto
  have "low < uint (c (unat bbno))" using a hi' by simp
  then show "xfs_rtany_summary mp rtg low hi bbno = (Inr (- 1), set_rsum_cache rtg bbno low)"
    using cache hi' a loop
    by (auto simp: xfs_rtany_summary_def set_rsum_cache_def Let_def)
qed

lemma ex_sumoffs [simp]: "xfs_rtsumoffs ex_mount log bbno = nat log * 4 + unat bbno"
  by (simp add: xfs_rtsumoffs_def ex_mount_def)

text \<open>
  The claim as stated, that an empty scan leaves the hint at \<open>found + 1 = 0\<close>, fails:
  on the fully allocated volume a scan of levels 4 down to 2 in bitmap block 0 finds
  nothing and leaves the hint at 2.
\<close>

theorem xfs_rtany_summary_hint_counterexample:
  "xfs_rtany_summary ex_mount rtg_full 2 4 0 = (Inr (- 1), rtg_full\<lparr>rtg_rsum_cache := Some (hint_init(0 := 2))\<rparr>)
   \<and> rsum_cache_at (snd (xfs_rtany_summary ex_mount rtg_full 2 4 0)) 0 = Some 2"
proof -
  have "xfs_rtany_summary_loop ex_mount rtg_full 2 0 4 = Inr (- 1, 1)"
    by (simp add: xfs_rtany_summary_loop.simps xfs_rtget_summary_def rtg_full_def no_ioerr_def)
  then have "xfs_rtany_summary ex_mount rtg_full 2 4 0 = (Inr (- 1), rtg_full\<lparr>rtg_rsum_cache := Some (hint_init(0 := 2))\<rparr>)"
    by (simp add: xfs_rtany_summary_def rtg_full_def hint_init_def)
  then show ?thesis by (simp add: rsum_cache_at_def)
qed

theorem xfs_rtany_summary_hint_witness:
  "xfs_rtany_summary ex_mount rtg_full 2 4 0 = (Inr (- 1), set_rsum_cache rtg_full 0 2)"
  using xfs_rtany_summary_hint [of rtg_full hint_init 4 4 0 2 ex_mount]
  by (simp add: rtg_full_def hint_init_def summary_readable_def summary_count_def no_ioerr_def)

subsection \<open>The negative side of the near search\<close>






subsection \<open>Running the model on concrete states\<close>







subsection \<open>The size class of a length\<close>

lemma highbit_nat_zero [simp]: "highbit_nat 0 = - 1"
  by (simp add: highbit_nat.simps)

lemma highbit_nat_bounds:
  "n \<noteq> 0 \<Longrightarrow> \<exists>L. highbit_nat n = int L \<and> 2 ^ L \<le> n \<and> n < 2 ^ (L + 1)"
proof (induction n rule: highbit_nat.induct)
  case (1 n)
  show ?case
  proof (cases "n div 2 = 0")
    case True
    then have "n = 1" using 1(2) by presburger
    then show ?thesis by (subst highbit_nat.simps) (auto intro: exI [of _ 0])
  next
    case False
    then obtain L where L: "highbit_nat (n div 2) = int L" "2 ^ L \<le> n div 2" "n div 2 < 2 ^ (L + 1)"
      using 1 by blast
    have "highbit_nat n = int (L + 1)" using 1(2) L(1) by (subst highbit_nat.simps) simp
    moreover have "2 ^ (L + 1) \<le> n" using L(2) by simp
    moreover have "n < 2 ^ (L + 1 + 1)" using L(3) by simp
    ultimately show ?thesis by blast
  qed
qed

lemma highbit_nat_unique:
  assumes "2 ^ L \<le> n" and "n < 2 ^ (L + 1)"
  shows "highbit_nat n = int L"
proof -
  have "0 < (2::nat) ^ L" by simp
  then have "n \<noteq> 0" using assms(1) by linarith
  then obtain K where K: "highbit_nat n = int K" "2 ^ K \<le> n" "n < 2 ^ (K + 1)"
    using highbit_nat_bounds by blast
  have "(2::nat) ^ K < 2 ^ (L + 1)" using K(2) assms(2) by simp
  then have "K < L + 1" using power_less_imp_less_exp [of 2 K "L + 1"] by simp
  moreover have "(2::nat) ^ L < 2 ^ (K + 1)" using K(3) assms(1) by simp
  then have "L < K + 1" using power_less_imp_less_exp [of 2 L "K + 1"] by simp
  ultimately show ?thesis using K(1) by simp
qed

lemma highbit_nat_eq_minus1: "highbit_nat n = - 1 \<longleftrightarrow> n = 0"
  using highbit_nat_bounds [of n] by (cases "n = 0") auto


subsection \<open>The sequence-seeded extent picker\<close>







subsection \<open>The summary copy\<close>

lemma unat_of_nat64: "n < 2 ^ 64 \<Longrightarrow> unat (of_nat n :: 64 word) = n"
  by (simp add: unat_of_nat)

lemma sint_of_nat64: "n < 2 ^ 63 \<Longrightarrow> sint (of_nat n :: 64 word) = int n"
proof -
  assume n: "n < 2 ^ 63"
  have "sint (of_nat n :: 64 word) = signed_take_bit (LENGTH(64) - Suc 0) (int n)"
    using signed_of_nat [of n, where 'a = int and 'b = 64] by simp
  also have "\<dots> = int n"
    using n by (intro signed_take_bit_int_eq_self) simp_all
  finally show ?thesis .
qed

lemma modify_summary_ok:
  "\<not> rsum_ioerr rtg (xfs_rtsumoffs mp log bbno) \<Longrightarrow>
   fst (xfs_rtmodify_summary mp rtg log bbno d) = None"
  by (simp add: xfs_rtmodify_summary_def Let_def)

lemma modify_summary_ioerr [simp]:
  "rsum_ioerr (snd (xfs_rtmodify_summary mp rtg log bbno d)) = rsum_ioerr rtg"
  by (simp add: xfs_rtmodify_summary_def Let_def split: option.splits)

lemma copy_cell_ioerr [simp]: "rsum_ioerr (copy_cell omp nmp log rtg B) = rsum_ioerr rtg"
  by (simp add: copy_cell_def Let_def)

lemma copy_bbno_step:
  assumes ok: "\<forall>so. \<not> rsum_ioerr rtg so" and pos: "0 \<le> sint bbno"
  shows "xfs_rtcopy_summary_bbno omp nmp rtg log bbno =
     xfs_rtcopy_summary_bbno omp nmp (copy_cell omp nmp log rtg (unat bbno)) log (bbno - 1)"
proof -
  let ?c = "summary_count omp rtg log bbno"
  have g: "xfs_rtget_summary omp rtg log bbno = Inr ?c"
    using ok by (simp add: xfs_rtget_summary_def summary_count_def)
  obtain rtg1 where m1: "xfs_rtmodify_summary omp rtg log bbno (- ?c) = (None, rtg1)"
    using modify_summary_ok [of rtg omp log bbno "- ?c"] ok
    by (cases "xfs_rtmodify_summary omp rtg log bbno (- ?c)") auto
  have ok1: "\<forall>so. \<not> rsum_ioerr rtg1 so"
    using modify_summary_ioerr [of omp rtg log bbno "- ?c"] ok m1 by simp
  obtain rtg2 where m2: "xfs_rtmodify_summary nmp rtg1 log bbno ?c = (None, rtg2)"
    using modify_summary_ok [of rtg1 nmp log bbno ?c] ok1
    by (cases "xfs_rtmodify_summary nmp rtg1 log bbno ?c") auto
  show ?thesis
    using pos g m1 m2
    by (subst xfs_rtcopy_summary_bbno.simps) (simp add: copy_cell_def Let_def)
qed

lemma copy_bbno_fold:
  assumes ok: "\<forall>so. \<not> rsum_ioerr rtg so" and n: "n < 2 ^ 63"
  shows "xfs_rtcopy_summary_bbno omp nmp rtg log (of_nat n) =
     (None, foldl (copy_cell omp nmp log) rtg (rev [0..<Suc n]))"
  using assms
proof (induction n arbitrary: rtg)
  case 0
  have "xfs_rtcopy_summary_bbno omp nmp rtg log 0 =
     xfs_rtcopy_summary_bbno omp nmp (copy_cell omp nmp log rtg 0) log (0 - 1)"
    using copy_bbno_step [of rtg 0] 0 by simp
  also have "\<dots> = (None, copy_cell omp nmp log rtg 0)"
    by (subst xfs_rtcopy_summary_bbno.simps) simp
  finally show ?case by simp
next
  case (Suc n)
  have u: "unat (of_nat (Suc n) :: 64 word) = Suc n"
    using Suc.prems by (intro unat_of_nat64) simp
  have pos: "0 \<le> sint (of_nat (Suc n) :: 64 word)"
    using Suc.prems sint_of_nat64 [of "Suc n"] by simp
  have "xfs_rtcopy_summary_bbno omp nmp rtg log (of_nat (Suc n)) =
     xfs_rtcopy_summary_bbno omp nmp (copy_cell omp nmp log rtg (Suc n)) log (of_nat (Suc n) - 1)"
    using copy_bbno_step [OF Suc.prems(1) pos] u by simp
  also have "of_nat (Suc n) - 1 = (of_nat n :: 64 word)" by simp
  also have "xfs_rtcopy_summary_bbno omp nmp (copy_cell omp nmp log rtg (Suc n)) log (of_nat n) =
     (None, foldl (copy_cell omp nmp log) (copy_cell omp nmp log rtg (Suc n)) (rev [0..<Suc n]))"
    using Suc.prems by (intro Suc.IH) simp_all
  finally show ?case by simp
qed


lemma foldl_copy_cell_ioerr [simp]:
  "rsum_ioerr (foldl (copy_cell omp nmp log) rtg Bs) = rsum_ioerr rtg"
  by (induction Bs arbitrary: rtg) simp_all

lemma copy_level_run:
  assumes ok: "\<forall>so. \<not> rsum_ioerr rtg so" and nz: "sb_rbmblocks omp \<noteq> 0"
  shows "xfs_rtcopy_summary_bbno omp nmp rtg (int L) (ucast (sb_rbmblocks omp - 1)) =
     (None, copy_level omp nmp rtg L)"
proof -
  let ?n = "unat (sb_rbmblocks omp) - 1"
  have pos: "0 < unat (sb_rbmblocks omp)" using nz by (simp add: unat_gt_0)
  have "1 \<le> sb_rbmblocks omp" using pos by (simp add: word_le_nat_alt)
  then have "unat (sb_rbmblocks omp - 1) = ?n" by (simp add: unat_sub)
  then have "(ucast (sb_rbmblocks omp - 1) :: 64 word) = of_nat ?n"
    by (metis of_nat_unat)
  moreover have "?n < 2 ^ 63"
    using unsigned_less [of "sb_rbmblocks omp", where 'a = nat] by simp
  ultimately have "xfs_rtcopy_summary_bbno omp nmp rtg (int L) (ucast (sb_rbmblocks omp - 1)) =
     (None, foldl (copy_cell omp nmp (int L)) rtg (rev [0..<Suc ?n]))"
    using copy_bbno_fold [OF ok, of ?n omp nmp "int L"] by simp
  moreover have "Suc ?n = unat (sb_rbmblocks omp)" using pos by simp
  ultimately show ?thesis by (simp only: copy_level_def)
qed

lemma copy_level_ioerr [simp]: "rsum_ioerr (copy_level omp nmp rtg L) = rsum_ioerr rtg"
  by (simp add: copy_level_def)

lemma copy_log_fold:
  assumes ok: "\<forall>so. \<not> rsum_ioerr rtg so" and nz: "sb_rbmblocks omp \<noteq> 0"
  shows "xfs_rtcopy_summary_log omp nmp rtg (int m - 1) =
     (None, foldl (copy_level omp nmp) rtg (rev [0..<m]))"
  using ok
proof (induction m arbitrary: rtg)
  case 0
  show ?case by (subst xfs_rtcopy_summary_log.simps) simp
next
  case (Suc m)
  have lvl: "xfs_rtcopy_summary_bbno omp nmp rtg (int m) (ucast (sb_rbmblocks omp - 1)) =
     (None, copy_level omp nmp rtg m)"
    using copy_level_run [OF Suc.prems nz] .
  have "xfs_rtcopy_summary_log omp nmp (copy_level omp nmp rtg m) (int m - 1) =
     (None, foldl (copy_level omp nmp) (copy_level omp nmp rtg m) (rev [0..<m]))"
    using Suc.prems by (intro Suc.IH) simp
  then show ?case using lvl
    by (subst xfs_rtcopy_summary_log.simps) simp
qed

text \<open>
  C7. \<open>xfs_rtcopy_summary\<close> returns 0 whatever happens: when a summary read or update
  fails partway, the loops stop with \<open>error\<close> set and the function still returns
  success, with the summary as the loops left it. When no summary block fails, it visits
  the levels in descending order and the bitmap blocks of each level in descending
  order, and for every cell with a nonzero count subtracts the count from the cell of
  the old geometry and then adds it to the cell \<open>(L, B)\<close> of the new geometry.
\<close>

theorem xfs_rtcopy_summary_returns_zero:
  "fst (xfs_rtcopy_summary omp nmp rtg) = None \<and>
   (\<forall>e rtg1. xfs_rtcopy_summary_log omp nmp rtg (int (m_rsumlevels omp) - 1) = (Some e, rtg1) \<longrightarrow>
      xfs_rtcopy_summary omp nmp rtg = (None, rtg1)) \<and>
   ((\<forall>so. \<not> rsum_ioerr rtg so) \<and> sb_rbmblocks omp \<noteq> 0 \<longrightarrow>
      xfs_rtcopy_summary omp nmp rtg = (None, copy_summary_spec omp nmp rtg))"
proof (intro conjI allI impI)
  show "fst (xfs_rtcopy_summary omp nmp rtg) = None"
    by (simp add: xfs_rtcopy_summary_def split: prod.splits)
next
  fix e rtg1
  assume "xfs_rtcopy_summary_log omp nmp rtg (int (m_rsumlevels omp) - 1) = (Some e, rtg1)"
  then show "xfs_rtcopy_summary omp nmp rtg = (None, rtg1)"
    by (simp add: xfs_rtcopy_summary_def xfs_rtbuf_cache_relse_def)
next
  assume "(\<forall>so. \<not> rsum_ioerr rtg so) \<and> sb_rbmblocks omp \<noteq> 0"
  then have "xfs_rtcopy_summary_log omp nmp rtg (int (m_rsumlevels omp) - 1) =
     (None, foldl (copy_level omp nmp) rtg (rev [0..<m_rsumlevels omp]))"
    by (intro copy_log_fold) simp_all
  then show "xfs_rtcopy_summary omp nmp rtg = (None, copy_summary_spec omp nmp rtg)"
    by (simp add: xfs_rtcopy_summary_def xfs_rtbuf_cache_relse_def copy_summary_spec_def)
qed


lemma ex_copy_fault:
  "fst (xfs_rtcopy_summary_log ex_mount ex_mount_grown rtg_free_fault 4) = Some EIO"
  by (simp add: xfs_rtcopy_summary_log.simps xfs_rtcopy_summary_bbno.simps
        xfs_rtget_summary_def xfs_rtmodify_summary_def xfs_rtsumoffs_def
        ex_mount_def ex_mount_grown_def rtg_free_fault_def rtg_free_def rsum_ioerr_24_def
        hint_init_def Let_def)

lemma ex_copy_spec:
  "summary_count ex_mount_grown (copy_summary_spec ex_mount ex_mount_grown rtg_free) 4 0 = 1"
  "summary_count ex_mount (copy_summary_spec ex_mount ex_mount_grown rtg_free) 4 0 = 0"
  by (simp_all add: copy_summary_spec_def copy_level_def copy_cell_def summary_count_def
        xfs_rtmodify_summary_def xfs_rtsumoffs_def upt_rec
        ex_mount_def ex_mount_grown_def rtg_free_def no_ioerr_def hint_init_def Let_def)

theorem xfs_rtcopy_summary_returns_zero_witness:
  "fst (xfs_rtcopy_summary_log ex_mount ex_mount_grown rtg_free_fault 4) = Some EIO \<and>
   fst (xfs_rtcopy_summary ex_mount ex_mount_grown rtg_free_fault) = None \<and>
   xfs_rtcopy_summary ex_mount ex_mount_grown rtg_free =
     (None, copy_summary_spec ex_mount ex_mount_grown rtg_free) \<and>
   summary_count ex_mount_grown (copy_summary_spec ex_mount ex_mount_grown rtg_free) 4 0 = 1"
  using xfs_rtcopy_summary_returns_zero [of ex_mount ex_mount_grown rtg_free_fault]
    xfs_rtcopy_summary_returns_zero [of ex_mount ex_mount_grown rtg_free]
    ex_copy_fault ex_copy_spec
  by (simp add: rtg_free_def no_ioerr_def ex_mount_def)

subsection \<open>Exact allocation\<close>

lemma unat_ucast_up: "unat (ucast w :: 64 word) = unat w" for w :: "32 word"
proof -
  have "unat w < 2 ^ 64"
    using unsigned_less [of w, where 'a = nat] by simp
  then show ?thesis
    by (simp add: unsigned_ucast_eq take_bit_nat_eq_self)
qed

lemma unat_ucast_down: "unat w < 2 ^ 32 \<Longrightarrow> unat (ucast w :: 32 word) = unat w" for w :: "64 word"
  by (simp add: unsigned_ucast_eq take_bit_nat_eq_self)

lemma word_of_unat: "unat w = n \<Longrightarrow> w = of_nat n"
  by auto

lemma unat_align_len:
  assumes "prd \<noteq> 0"
  shows "unat (xfs_rtalloc_align_len x prd) = round_down (unat x) (unat prd)"
proof (cases "1 < prd")
  case True
  have "x mod prd \<le> x" by (simp add: word_le_nat_alt unat_mod)
  then have "unat (x - x mod prd) = unat x - unat x mod unat prd"
    by (simp add: unat_sub unat_mod)
  then show ?thesis using True by (simp add: xfs_rtalloc_align_len_def round_down_def)
next
  case False
  then have "unat prd \<le> 1" by (simp add: word_less_nat_alt)
  moreover have "unat prd \<noteq> 0" using assms by (simp add: unat_eq_0)
  ultimately have "unat prd = 1" by simp
  then show ?thesis using False by (simp add: xfs_rtalloc_align_len_def round_down_def)
qed

lemma round_down_le: "round_down n p \<le> n"
  by (simp add: round_down_def)

lemma unat_clamp_len:
  fixes start :: "64 word" and maxlen prd :: "32 word"
  assumes le: "start \<le> rtg_extents rtg"
    and nowrap: "unat start + unat maxlen < 2 ^ 64"
    and prd: "prd \<noteq> 0"
  shows "unat (xfs_rtallocate_clamp_len rtg start maxlen prd) =
     round_down (min (unat maxlen) (unat (rtg_extents rtg) - unat start)) (unat prd)"
proof -
  let ?e = "rtg_extents rtg"
  have um: "unat (ucast maxlen :: 64 word) = unat maxlen"
    by (rule unat_ucast_up)
  have "unat start + unat (ucast maxlen :: 64 word) < 2 ^ LENGTH(64)" using nowrap um by simp
  then have s: "unat (start + ucast maxlen) = unat start + unat maxlen"
    using unat_add_lem [of start "ucast maxlen"] um by simp
  have ge: "start \<le> min ?e (start + ucast maxlen)"
    using le s by (simp add: word_le_nat_alt min_def)
  have se: "unat start \<le> unat ?e" using le by (simp add: word_le_nat_alt)
  have m: "unat (min ?e (start + ucast maxlen)) = min (unat ?e) (unat start + unat maxlen)"
    using s by (simp add: min_def word_le_nat_alt)
  have "unat (min ?e (start + ucast maxlen) - start) = unat (min ?e (start + ucast maxlen)) - unat start"
    using ge by (rule unat_sub)
  then have d: "unat (min ?e (start + ucast maxlen) - start) = min (unat maxlen) (unat ?e - unat start)"
    unfolding m using se by linarith
  have "min (unat maxlen) (unat ?e - unat start) < 2 ^ 32"
    using unsigned_less [of maxlen, where 'a = nat] by simp
  then have "unat (ucast (min ?e (start + ucast maxlen) - start) :: 32 word) =
      min (unat maxlen) (unat ?e - unat start)"
    using d unat_ucast_down [of "min ?e (start + ucast maxlen) - start"] by simp
  then show ?thesis using prd by (simp add: xfs_rtallocate_clamp_len_def unat_align_len)
qed


lemma check_range_all:
  assumes "bitmap_readable rtg" and "\<forall>k\<in>{s..<s + n}. rtbitmap rtg k = v"
  shows "rtcheck_range_from mp rtg v s n = Inr (s + n, True)"
  using assms(2)
proof (induction n arbitrary: s)
  case 0
  show ?case by simp
next
  case (Suc n)
  have "rtbitmap rtg s = v" using Suc.prems by simp
  moreover have "rtcheck_range_from mp rtg v (Suc s) n = Inr (Suc s + n, True)"
    using Suc.prems by (intro Suc.IH) simp
  ultimately show ?case using assms(1) by (simp add: bitmap_readable_def)
qed

lemma check_range_stop:
  assumes "bitmap_readable rtg" and "s \<le> nxt" and "nxt < s + n"
    and "rtbitmap rtg nxt \<noteq> v" and "\<forall>k\<in>{s..<nxt}. rtbitmap rtg k = v"
  shows "rtcheck_range_from mp rtg v s n = Inr (nxt, False)"
  using assms(2-)
proof (induction n arbitrary: s)
  case 0
  then show ?case by simp
next
  case (Suc n)
  show ?case
  proof (cases "s = nxt")
    case True
    then show ?thesis using Suc.prems assms(1) by (simp add: bitmap_readable_def)
  next
    case False
    then have lt: "s < nxt" using Suc.prems by simp
    then have "rtbitmap rtg s = v" using Suc.prems by simp
    moreover have "rtcheck_range_from mp rtg v (Suc s) n = Inr (nxt, False)"
      using Suc.prems lt by (intro Suc.IH) simp_all
    ultimately show ?thesis using assms(1) by (simp add: bitmap_readable_def)
  qed
qed

lemma exact_start:
  "xfs_rtallocate_extent_exact mp rtg start minlen maxlen prd = Inr (r, l) \<Longrightarrow> r = start"
  by (auto simp: xfs_rtallocate_extent_exact_def Let_def split: if_splits sum.splits prod.splits)


text \<open>
  C2. Whenever the exact allocation succeeds, the returned start is the requested
  start. With \<open>clamped\<close> the maximum length limited to the end of the volume and rounded
  down to a multiple of \<open>prod\<close>: the allocation fails with \<open>ENOSPC\<close> when \<open>clamped\<close> is below
  \<open>minlen\<close>; it returns \<open>clamped\<close> when that whole range is free; and when the first
  allocated extent of the range is \<open>nxt\<close>, it returns the free prefix \<open>nxt - start\<close>
  rounded down to a multiple of \<open>prod\<close> if that is at least \<open>minlen\<close>, and fails with
  \<open>ENOSPC\<close> otherwise.
\<close>

theorem xfs_rtallocate_extent_exact_result:
  assumes rd: "bitmap_readable rtg"
    and le: "start \<le> rtg_extents rtg"
    and nowrap: "unat start + unat maxlen < 2 ^ 64"
    and prd: "prd \<noteq> 0"
    and c: "clamped = round_down (min (unat maxlen) (unat (rtg_extents rtg) - unat start)) (unat prd)"
  shows "(\<forall>r l. xfs_rtallocate_extent_exact mp rtg start minlen maxlen prd = Inr (r, l) \<longrightarrow> r = start) \<and>
    (clamped < unat minlen \<longrightarrow>
       xfs_rtallocate_extent_exact mp rtg start minlen maxlen prd = Inl ENOSPC) \<and>
    (unat minlen \<le> clamped \<and> range_free rtg (unat start) clamped \<longrightarrow>
       xfs_rtallocate_extent_exact mp rtg start minlen maxlen prd = Inr (start, of_nat clamped)) \<and>
    (\<forall>nxt. unat minlen \<le> clamped \<and> unat start \<le> nxt \<and> nxt < unat start + clamped \<and>
        range_free rtg (unat start) (nxt - unat start) \<and> \<not> rtbitmap rtg nxt \<longrightarrow>
       xfs_rtallocate_extent_exact mp rtg start minlen maxlen prd =
         (if round_down (nxt - unat start) (unat prd) < unat minlen then Inl ENOSPC
          else Inr (start, of_nat (round_down (nxt - unat start) (unat prd)))))"
proof (intro conjI allI impI)
  fix r l
  assume "xfs_rtallocate_extent_exact mp rtg start minlen maxlen prd = Inr (r, l)"
  then show "r = start" by (rule exact_start)
next
  let ?scan = "xfs_rtallocate_clamp_len rtg start maxlen prd"
  have u: "unat ?scan = clamped" using unat_clamp_len [OF le nowrap prd] c by simp
  {
    assume "clamped < unat minlen"
    then have "?scan < minlen" using u by (simp add: word_less_nat_alt)
    then show "xfs_rtallocate_extent_exact mp rtg start minlen maxlen prd = Inl ENOSPC"
      by (simp add: xfs_rtallocate_extent_exact_def Let_def)
  next
    assume a: "unat minlen \<le> clamped \<and> range_free rtg (unat start) clamped"
    then have ge: "\<not> ?scan < minlen" using u by (simp add: word_less_nat_alt)
    have "rtcheck_range_from mp rtg True (unat start) clamped = Inr (unat start + clamped, True)"
      using a rd by (intro check_range_all) (simp_all add: range_free_def)
    then have "xfs_rtcheck_range mp rtg start ?scan True = Inr (of_nat (unat start + clamped), True)"
      using u by (simp add: xfs_rtcheck_range_def)
    moreover have "?scan = of_nat clamped" using u by (rule word_of_unat)
    ultimately show "xfs_rtallocate_extent_exact mp rtg start minlen maxlen prd = Inr (start, of_nat clamped)"
      using ge by (simp add: xfs_rtallocate_extent_exact_def Let_def)
  next
    fix nxt
    assume a: "unat minlen \<le> clamped \<and> unat start \<le> nxt \<and> nxt < unat start + clamped \<and>
        range_free rtg (unat start) (nxt - unat start) \<and> \<not> rtbitmap rtg nxt"
    then have ge: "\<not> ?scan < minlen" using u by (simp add: word_less_nat_alt)
    have cl: "clamped \<le> unat maxlen" using c round_down_le [of "min (unat maxlen) (unat (rtg_extents rtg) - unat start)" "unat prd"] by simp
    have "rtcheck_range_from mp rtg True (unat start) clamped = Inr (nxt, False)"
      using a rd by (intro check_range_stop) (auto simp: range_free_def)
    then have chk: "xfs_rtcheck_range mp rtg start ?scan True = Inr (of_nat nxt, False)"
      using u by (simp add: xfs_rtcheck_range_def)
    have n64: "nxt < 2 ^ 64" using a cl nowrap by linarith
    then have un: "unat (of_nat nxt :: 64 word) = nxt" by (simp add: unat_of_nat)
    then have "start \<le> of_nat nxt" using a by (simp add: word_le_nat_alt)
    then have d: "unat (of_nat nxt - start) = nxt - unat start" using un by (simp add: unat_sub)
    have "unat maxlen < 2 ^ 32" using unsigned_less [of maxlen, where 'a = nat] by simp
    then have "nxt - unat start < 2 ^ 32" using a cl by linarith
    then have al: "unat (ucast (of_nat nxt - start :: 64 word) :: 32 word) = nxt - unat start"
      using d unat_ucast_down [of "of_nat nxt - start"] by simp
    let ?al = "ucast (of_nat nxt - start :: 64 word) :: 32 word"
    have ual: "unat (xfs_rtalloc_align_len ?al prd) = round_down (nxt - unat start) (unat prd)"
      using unat_align_len [OF prd, of ?al] al by simp
    then have wal: "xfs_rtalloc_align_len ?al prd = of_nat (round_down (nxt - unat start) (unat prd))"
      by (rule word_of_unat)
    have c1: "?al < minlen \<longleftrightarrow> nxt - unat start < unat minlen"
      using al by (simp add: word_less_nat_alt)
    have c2: "xfs_rtalloc_align_len ?al prd < minlen \<longleftrightarrow> round_down (nxt - unat start) (unat prd) < unat minlen"
      using ual by (simp add: word_less_nat_alt)
    have imp: "nxt - unat start < unat minlen \<Longrightarrow> round_down (nxt - unat start) (unat prd) < unat minlen"
      using round_down_le [of "nxt - unat start" "unat prd"] by linarith
    show "xfs_rtallocate_extent_exact mp rtg start minlen maxlen prd =
         (if round_down (nxt - unat start) (unat prd) < unat minlen then Inl ENOSPC
          else Inr (start, of_nat (round_down (nxt - unat start) (unat prd))))"
      using ge chk c1 c2 imp wal
      by (auto simp: xfs_rtallocate_extent_exact_def Let_def)
  }
qed


theorem xfs_rtallocate_extent_exact_result_witness:
  "xfs_rtallocate_extent_exact ex_mount rtg_part 14 4 4 1 = Inl ENOSPC \<and>
   xfs_rtallocate_extent_exact ex_mount rtg_part 7 1 4 2 = Inr (7, 4) \<and>
   xfs_rtallocate_extent_exact ex_mount rtg_part 2 1 8 2 = Inr (2, 2)"
proof (intro conjI)
  have rd: "bitmap_readable rtg_part" by (simp add: bitmap_readable_def rtg_part_def no_ioerr_def)
  have e: "rtg_extents rtg_part = 16" by (simp add: rtg_part_def)
  have c1: "(2::nat) = round_down (min (unat (4 :: 32 word)) (unat (rtg_extents rtg_part) - unat (14 :: 64 word))) (unat (1 :: 32 word))"
    by (simp add: e round_down_def)
  have "(2::nat) < unat (4 :: 32 word) \<longrightarrow>
      xfs_rtallocate_extent_exact ex_mount rtg_part 14 4 4 1 = Inl ENOSPC"
    using xfs_rtallocate_extent_exact_result [OF rd _ _ _ c1, of ex_mount 4] by (simp add: e)
  then show "xfs_rtallocate_extent_exact ex_mount rtg_part 14 4 4 1 = Inl ENOSPC" by simp
  have c2: "(4::nat) = round_down (min (unat (4 :: 32 word)) (unat (rtg_extents rtg_part) - unat (7 :: 64 word))) (unat (2 :: 32 word))"
    by (simp add: e round_down_def)
  have "unat (1 :: 32 word) \<le> (4::nat) \<and> range_free rtg_part (unat (7 :: 64 word)) 4 \<longrightarrow>
      xfs_rtallocate_extent_exact ex_mount rtg_part 7 1 4 2 = Inr (7, of_nat 4)"
    using xfs_rtallocate_extent_exact_result [OF rd _ _ _ c2, of ex_mount 1] by (simp add: e)
  moreover have "range_free rtg_part 7 4" by (simp add: range_free_def rtg_part_def)
  ultimately show "xfs_rtallocate_extent_exact ex_mount rtg_part 7 1 4 2 = Inr (7, 4)" by simp
  have c3: "(8::nat) = round_down (min (unat (8 :: 32 word)) (unat (rtg_extents rtg_part) - unat (2 :: 64 word))) (unat (2 :: 32 word))"
    by (simp add: e round_down_def)
  have "\<forall>nxt. unat (1 :: 32 word) \<le> (8::nat) \<and> unat (2 :: 64 word) \<le> nxt \<and> nxt < unat (2 :: 64 word) + 8 \<and>
        range_free rtg_part (unat (2 :: 64 word)) (nxt - unat (2 :: 64 word)) \<and> \<not> rtbitmap rtg_part nxt \<longrightarrow>
       xfs_rtallocate_extent_exact ex_mount rtg_part 2 1 8 2 =
         (if round_down (nxt - unat (2 :: 64 word)) (unat (2 :: 32 word)) < unat (1 :: 32 word) then Inl ENOSPC
          else Inr (2, of_nat (round_down (nxt - unat (2 :: 64 word)) (unat (2 :: 32 word)))))"
    using xfs_rtallocate_extent_exact_result [OF rd _ _ _ c3, of ex_mount 1] by (simp add: e)
  from this [rule_format, of 5]
  show "xfs_rtallocate_extent_exact ex_mount rtg_part 2 1 8 2 = Inr (2, 2)"
    by (simp add: range_free_def rtg_part_def round_down_def)
qed

subsection \<open>Allocating a range\<close>

lemma find_back_run:
  assumes rd: "bitmap_readable rtg"
    and "pre \<le> s" and "\<forall>k\<in>{pre..<s}. rtbitmap rtg k = v"
    and "pre = 0 \<or> rtbitmap rtg (pre - 1) \<noteq> v"
  shows "rtfind_back_from mp rtg v s = Inr pre"
  using assms(2-)
proof (induction s)
  case 0
  then show ?case by simp
next
  case (Suc k)
  show ?case
  proof (cases "pre = Suc k")
    case True
    then show ?thesis using Suc.prems rd by (simp add: bitmap_readable_def)
  next
    case False
    then have le: "pre \<le> k" using Suc.prems by simp
    then have "rtbitmap rtg k = v" using Suc.prems by simp
    moreover have "rtfind_back_from mp rtg v k = Inr pre"
      using Suc.prems le by (intro Suc.IH) simp_all
    ultimately show ?thesis using rd by (simp add: bitmap_readable_def)
  qed
qed

lemma find_forw_run:
  assumes rd: "bitmap_readable rtg"
    and "k \<le> lst" and "lst \<le> limit" and "\<forall>j\<in>{k<..lst}. rtbitmap rtg j = v"
    and "lst = limit \<or> rtbitmap rtg (Suc lst) \<noteq> v"
  shows "rtfind_forw_from mp rtg v k limit = Inr lst"
  using assms(2-)
proof (induction "lst - k" arbitrary: k)
  case 0
  then have "k = lst" by simp
  then show ?case using 0 rd
    by (subst rtfind_forw_from.simps) (auto simp: bitmap_readable_def)
next
  case (Suc n)
  then have lt: "k < lst" by simp
  then have "rtbitmap rtg (Suc k) = v" using Suc.prems by simp
  moreover have "rtfind_forw_from mp rtg v (Suc k) limit = Inr lst"
    using Suc lt by (intro Suc.hyps(1)) auto
  ultimately show ?case using lt Suc.prems rd
    by (subst rtfind_forw_from.simps) (simp add: bitmap_readable_def)
qed

lemma modify_range_run:
  assumes rd: "bitmap_readable rtg"
  shows "fst (rtmodify_range_from mp rtg v s n) = None \<and>
    rtbitmap (snd (rtmodify_range_from mp rtg v s n)) =
      (\<lambda>k. if s \<le> k \<and> k < s + n then v else rtbitmap rtg k) \<and>
    rtsummary (snd (rtmodify_range_from mp rtg v s n)) = rtsummary rtg"
  using rd
proof (induction n arbitrary: rtg s)
  case 0
  then show ?case by (auto simp: fun_eq_iff)
next
  case (Suc n)
  let ?r = "rtg\<lparr>rtbitmap := (rtbitmap rtg)(s := v)\<rparr>"
  have rd': "bitmap_readable ?r" using Suc.prems by (simp add: bitmap_readable_def)
  have "(\<lambda>k. if Suc s \<le> k \<and> k < Suc s + n then v else rtbitmap ?r k) =
        (\<lambda>k. if s \<le> k \<and> k < s + Suc n then v else rtbitmap rtg k)"
    by (auto simp: fun_eq_iff)
  then show ?case using Suc.IH [OF rd', of "Suc s"] Suc.prems
    by (simp add: bitmap_readable_def)
qed

lemma modify_summary_run:
  assumes "summary_all_readable rtg"
  shows "fst (xfs_rtmodify_summary mp rtg L b d) = None \<and>
    rtsummary (snd (xfs_rtmodify_summary mp rtg L b d)) = summary_add mp (rtsummary rtg) L (unat b) d \<and>
    rtbitmap (snd (xfs_rtmodify_summary mp rtg L b d)) = rtbitmap rtg \<and>
    rbm_ioerr (snd (xfs_rtmodify_summary mp rtg L b d)) = rbm_ioerr rtg \<and>
    rsum_ioerr (snd (xfs_rtmodify_summary mp rtg L b d)) = rsum_ioerr rtg"
  using assms
  by (simp add: xfs_rtmodify_summary_def summary_all_readable_def summary_add_def
        xfs_rtsumoffs_def Let_def split: option.splits)


lemma highbit64_of_nat: "n < 2 ^ 64 \<Longrightarrow> xfs_highbit64 (of_nat n) = highbit_nat n"
  by (simp add: xfs_highbit64_def unat_of_nat64)

lemma rbmblock_of_nat:
  "n < 2 ^ 64 \<Longrightarrow> unat (xfs_rtx_to_rbmblock mp (of_nat n)) = rbmblock_of mp n"
proof -
  assume n: "n < 2 ^ 64"
  have "unat (drop_bit (m_blkbit_log mp) (of_nat n :: 64 word)) =
      drop_bit (m_blkbit_log mp) (unat (of_nat n :: 64 word))"
    by (rule unat_drop_bit_eq)
  then show ?thesis using n
    by (simp add: xfs_rtx_to_rbmblock_def rbmblock_of_def unat_of_nat64 drop_bit_eq_div)
qed

lemma of_nat_less_64:
  "a < 2 ^ 64 \<Longrightarrow> b < 2 ^ 64 \<Longrightarrow> (of_nat a :: 64 word) < of_nat b \<longleftrightarrow> a < b"
  by (simp add: word_less_nat_alt unat_of_nat64)

lemma of_nat_pred_64: "0 < n \<Longrightarrow> (of_nat (n - 1) :: 64 word) + 1 = of_nat n"
  by (cases n) simp_all

text \<open>One summary update that cannot fail, as a step of a longer run.\<close>

lemma modify_summary_step:
  assumes "summary_all_readable rtg"
  obtains rtg' where "xfs_rtmodify_summary mp rtg L b d = (None, rtg')"
    and "rtsummary rtg' = summary_add mp (rtsummary rtg) L (unat b) d"
    and "rtbitmap rtg' = rtbitmap rtg"
    and "bitmap_readable rtg' = bitmap_readable rtg"
    and "summary_all_readable rtg'"
proof -
  let ?m = "xfs_rtmodify_summary mp rtg L b d"
  note r = modify_summary_run [OF assms, of mp L b d]
  have "?m = (None, snd ?m)" using r by (metis prod.collapse)
  moreover have "bitmap_readable (snd ?m) = bitmap_readable rtg"
    using r by (simp add: bitmap_readable_def)
  moreover have "summary_all_readable (snd ?m)"
    using r assms by (simp add: summary_all_readable_def)
  ultimately show ?thesis using r that by blast
qed


text \<open>
  C1. Let \<open>[start, start + len)\<close> be free and inside the volume, and let \<open>[pre, post)\<close> be
  the maximal free run around it (\<open>pre\<close> its first extent, \<open>post\<close> one past its last, not
  beyond the end of the volume). Then \<open>xfs_rtallocate_range\<close> succeeds, takes one
  count from class \<open>floor(log2(post - pre))\<close> in the bitmap block of \<open>pre\<close>, adds one to
  class \<open>floor(log2(start - pre))\<close> in the same block when \<open>pre < start\<close>, adds one to
  class \<open>floor(log2(post - (start + len)))\<close> in the bitmap block of \<open>start + len\<close> when
  \<open>post > start + len\<close>, and clears the \<open>len\<close> bitmap bits from \<open>start\<close> on.
\<close>

theorem xfs_rtallocate_range_effect:
  assumes rd: "bitmap_readable rtg" and srd: "summary_all_readable rtg"
    and len: "0 < unat len"
    and inside: "unat start + unat len \<le> unat (rtg_extents rtg)"
    and free: "range_free rtg (unat start) (unat len)"
    and pre: "pre \<le> unat start" "range_free rtg pre (unat start - pre)"
             "pre = 0 \<or> \<not> rtbitmap rtg (pre - 1)"
    and post: "unat start + unat len \<le> post" "post \<le> unat (rtg_extents rtg)"
             "range_free rtg (unat start + unat len) (post - (unat start + unat len))"
             "post = unat (rtg_extents rtg) \<or> \<not> rtbitmap rtg post"
  shows "fst (xfs_rtallocate_range mp rtg start len) = None \<and>
     rtsummary (snd (xfs_rtallocate_range mp rtg start len)) =
       allocated_summary mp (rtsummary rtg) pre post (unat start) (unat len) \<and>
     rtbitmap (snd (xfs_rtallocate_range mp rtg start len)) =
       clear_range (rtbitmap rtg) (unat start) (unat len)"
proof -
  let ?s = "unat start" and ?l = "unat len" and ?e = "unat (rtg_extents rtg)"
  have e64: "?e < 2 ^ 64" using unsigned_less [of "rtg_extents rtg", where 'a = nat] by simp
  have post64: "post < 2 ^ 64" and pre64: "pre < 2 ^ 64" and sl64: "?s + ?l < 2 ^ 64"
    using e64 post pre inside by linarith+
  have start: "start = of_nat ?s" by simp
  have l64: "unat (ucast len :: 64 word) = ?l" by (rule unat_ucast_up)
  have "unat start + unat (ucast len :: 64 word) < 2 ^ LENGTH(64)" using sl64 l64 by simp
  then have sum: "unat (start + ucast len) = ?s + ?l"
    using unat_add_lem [of start "ucast len"] l64 by simp
  then have "1 \<le> start + ucast len" using len by (simp add: word_le_nat_alt)
  then have "unat (start + ucast len - 1) = ?s + ?l - 1" using sum by (simp add: unat_sub)
  then have endw: "start + ucast len - 1 = of_nat (?s + ?l - 1)" by (rule word_of_unat)
  have "1 \<le> rtg_extents rtg" using len inside by (simp add: word_le_nat_alt)
  then have "unat (rtg_extents rtg - 1) = ?e - 1" by (simp add: unat_sub)
  then have limit: "unat (rtg_extents rtg - 1) = ?e - 1" .
  have uend: "unat (of_nat (?s + ?l - 1) :: 64 word) = ?s + ?l - 1"
    using sl64 by (intro unat_of_nat64) simp
  \<comment> \<open>the two walks\<close>
  have s_free: "rtbitmap rtg ?s" using free len by (simp add: range_free_def)
  have e_free: "rtbitmap rtg (?s + ?l - 1)" using free len by (simp add: range_free_def)
  have "rtfind_back_from mp rtg True ?s = Inr pre"
    using pre rd by (intro find_back_run) (auto simp: range_free_def)
  then have fb: "xfs_rtfind_back mp rtg start = Inr (of_nat pre)"
    using rd s_free by (simp add: xfs_rtfind_back_def bitmap_readable_def)
  have "rtfind_forw_from mp rtg True (?s + ?l - 1) (?e - 1) = Inr (post - 1)"
  proof (intro find_forw_run rd)
    show "?s + ?l - 1 \<le> post - 1" using post by simp
    show "post - 1 \<le> ?e - 1" using post by simp
    show "\<forall>j\<in>{?s + ?l - 1<..post - 1}. rtbitmap rtg j = True"
    proof
      fix j
      assume "j \<in> {?s + ?l - 1<..post - 1}"
      then have "?s + ?l \<le> j \<and> j < ?s + ?l + (post - (?s + ?l))" using len by auto
      then show "rtbitmap rtg j = True" using post(3) by (simp add: range_free_def)
    qed
    show "post - 1 = ?e - 1 \<or> rtbitmap rtg (Suc (post - 1)) \<noteq> True"
      using post len by auto
  qed
  then have forw: "xfs_rtfind_forw mp rtg (of_nat (?s + ?l - 1)) (rtg_extents rtg - 1) = Inr (of_nat (post - 1))"
    unfolding xfs_rtfind_forw_def uend limit using rd e_free by (simp add: bitmap_readable_def)
  \<comment> \<open>the arithmetic of the source, in natural numbers\<close>
  have post1: "post \<ge> 1" using post len by linarith
  have a1: "(of_nat (post - 1) :: 64 word) + 1 - of_nat pre = of_nat (post - pre)"
  proof -
    have "(of_nat (post - 1) :: 64 word) + 1 = of_nat post"
      using post1 by (intro of_nat_pred_64) simp
    moreover have "pre \<le> post" using pre post by linarith
    then have "(of_nat (post - pre) :: 64 word) = of_nat post - of_nat pre" by (rule of_nat_diff)
    ultimately show ?thesis by simp
  qed
  have a2: "start - of_nat pre = (of_nat (?s - pre) :: 64 word)"
  proof -
    have "(of_nat (?s - pre) :: 64 word) = of_nat ?s - of_nat pre" using pre(1) by (rule of_nat_diff)
    then show ?thesis by simp
  qed
  have a3: "(of_nat (post - 1) :: 64 word) - of_nat (?s + ?l - 1) = of_nat (post - (?s + ?l))"
  proof -
    have "?s + ?l - 1 \<le> post - 1" using post by simp
    then have "(of_nat (post - 1 - (?s + ?l - 1)) :: 64 word) = of_nat (post - 1) - of_nat (?s + ?l - 1)"
      by (rule of_nat_diff)
    moreover have "post - 1 - (?s + ?l - 1) = post - (?s + ?l)" using len by simp
    ultimately show ?thesis by simp
  qed
  have a4: "(of_nat (?s + ?l - 1) :: 64 word) + 1 = of_nat (?s + ?l)"
    using len by (intro of_nat_pred_64) simp
  have c1: "(of_nat pre :: 64 word) < start \<longleftrightarrow> pre < ?s"
    using pre64 by (simp add: word_less_nat_alt unat_of_nat64)
  have c2: "(of_nat (post - 1) :: 64 word) > of_nat (?s + ?l - 1) \<longleftrightarrow> ?s + ?l < post"
  proof -
    have "(of_nat (?s + ?l - 1) :: 64 word) < of_nat (post - 1) \<longleftrightarrow> ?s + ?l - 1 < post - 1"
      using sl64 post64 by (intro of_nat_less_64) simp_all
    then show ?thesis using len post1 by auto
  qed
  have h1: "xfs_highbit64 (of_nat (post - pre)) = highbit_nat (post - pre)"
    using post64 by (intro highbit64_of_nat) simp
  have h2: "xfs_highbit64 (of_nat (?s - pre)) = highbit_nat (?s - pre)"
    using sl64 by (intro highbit64_of_nat) simp
  have h3: "xfs_highbit64 (of_nat (post - (?s + ?l))) = highbit_nat (post - (?s + ?l))"
    using post64 by (intro highbit64_of_nat) simp
  have b1: "unat (xfs_rtx_to_rbmblock mp (of_nat pre)) = rbmblock_of mp pre"
    using pre64 by (rule rbmblock_of_nat)
  have b2: "unat (xfs_rtx_to_rbmblock mp (of_nat (?s + ?l))) = rbmblock_of mp (?s + ?l)"
    using sl64 by (rule rbmblock_of_nat)
  \<comment> \<open>the three summary updates and the bitmap update\<close>
  obtain rtg1 where m1: "xfs_rtmodify_summary mp rtg (highbit_nat (post - pre))
        (xfs_rtx_to_rbmblock mp (of_nat pre)) (- 1) = (None, rtg1)"
    and s1: "rtsummary rtg1 = summary_add mp (rtsummary rtg) (highbit_nat (post - pre)) (rbmblock_of mp pre) (- 1)"
    and bm1: "rtbitmap rtg1 = rtbitmap rtg" and rd1: "bitmap_readable rtg1" and srd1: "summary_all_readable rtg1"
    using modify_summary_step [OF srd, of mp "highbit_nat (post - pre)" "xfs_rtx_to_rbmblock mp (of_nat pre)" "- 1"]
      b1 rd by metis
  obtain rtg2 where m2: "(if pre < ?s
        then xfs_rtmodify_summary mp rtg1 (highbit_nat (?s - pre)) (xfs_rtx_to_rbmblock mp (of_nat pre)) 1
        else (None, rtg1)) = (None, rtg2)"
    and s2: "rtsummary rtg2 = (if pre < ?s
        then summary_add mp (rtsummary rtg1) (highbit_nat (?s - pre)) (rbmblock_of mp pre) 1
        else rtsummary rtg1)"
    and bm2: "rtbitmap rtg2 = rtbitmap rtg" and rd2: "bitmap_readable rtg2" and srd2: "summary_all_readable rtg2"
  proof (cases "pre < ?s")
    case True
    then show ?thesis
      using modify_summary_step [OF srd1, of mp "highbit_nat (?s - pre)" "xfs_rtx_to_rbmblock mp (of_nat pre)" 1]
        b1 rd1 bm1 that by (metis (full_types))
  next
    case False
    then show ?thesis using that [of rtg1] bm1 rd1 srd1 by simp
  qed
  obtain rtg3 where m3: "(if ?s + ?l < post
        then xfs_rtmodify_summary mp rtg2 (highbit_nat (post - (?s + ?l)))
               (xfs_rtx_to_rbmblock mp (of_nat (?s + ?l))) 1
        else (None, rtg2)) = (None, rtg3)"
    and s3: "rtsummary rtg3 = (if ?s + ?l < post
        then summary_add mp (rtsummary rtg2) (highbit_nat (post - (?s + ?l))) (rbmblock_of mp (?s + ?l)) 1
        else rtsummary rtg2)"
    and bm3: "rtbitmap rtg3 = rtbitmap rtg" and rd3: "bitmap_readable rtg3"
  proof (cases "?s + ?l < post")
    case True
    then show ?thesis
      using modify_summary_step [OF srd2, of mp "highbit_nat (post - (?s + ?l))" "xfs_rtx_to_rbmblock mp (of_nat (?s + ?l))" 1]
        b2 rd2 bm2 that by (metis (full_types))
  next
    case False
    then show ?thesis using that [of rtg2] bm2 rd2 by simp
  qed
  define preblock :: "64 word" where "preblock = of_nat pre"
  define postblock :: "64 word" where "postblock = of_nat (post - 1)"
  define endx :: "64 word" where "endx = start + ucast len - 1"
  have w1: "xfs_rtfind_back mp rtg start = Inr preblock"
    using fb by (simp add: preblock_def)
  have w2: "xfs_rtfind_forw mp rtg endx (rtg_extents rtg - 1) = Inr postblock"
    using forw by (simp only: endx_def endw postblock_def)
  have w3: "xfs_highbit64 (postblock + 1 - preblock) = highbit_nat (post - pre)"
    using h1 by (simp only: postblock_def preblock_def a1)
  have w4: "xfs_highbit64 (start - preblock) = highbit_nat (?s - pre)"
    using h2 by (simp only: preblock_def a2)
  have w5: "xfs_highbit64 (postblock - endx) = highbit_nat (post - (?s + ?l))"
    using h3 by (simp only: postblock_def endx_def endw a3)
  have w6: "preblock < start \<longleftrightarrow> pre < ?s"
    using c1 by (simp only: preblock_def)
  have w7: "endx < postblock \<longleftrightarrow> ?s + ?l < post"
    using c2 by (simp only: postblock_def endx_def endw)
  have w8: "endx + 1 = of_nat (?s + ?l)"
    using a4 by (simp only: endx_def endw)
  have w9: "xfs_rtx_to_rbmblock mp preblock = xfs_rtx_to_rbmblock mp (of_nat pre)"
    by (simp only: preblock_def)
  have run: "xfs_rtallocate_range mp rtg start len = xfs_rtmodify_range mp rtg3 start len False"
    unfolding xfs_rtallocate_range_def Let_def endx_def [symmetric]
    by (simp only: w1 w2 w3 w4 w5 w6 w7 w8 w9 m1 m2 m3 sum.case prod.case option.case)
  note mr = modify_range_run [OF rd3, of mp False ?s ?l]
  have "rtsummary rtg3 = allocated_summary mp (rtsummary rtg) pre post ?s ?l"
    unfolding s3 s2 s1 allocated_summary_def Let_def by simp
  then show ?thesis
    unfolding run xfs_rtmodify_range_def using mr bm3
    by (simp add: clear_range_def)
qed


theorem xfs_rtallocate_range_effect_witness:
  "fst (xfs_rtallocate_range ex_mount rtg_part 8 2) = None \<and>
   rtsummary (snd (xfs_rtallocate_range ex_mount rtg_part 8 2)) 13 = 0 \<and>
   rtsummary (snd (xfs_rtallocate_range ex_mount rtg_part 8 2)) 1 = 1 \<and>
   rtsummary (snd (xfs_rtallocate_range ex_mount rtg_part 8 2)) 10 = 1 \<and>
   \<not> rtbitmap (snd (xfs_rtallocate_range ex_mount rtg_part 8 2)) 8 \<and>
   \<not> rtbitmap (snd (xfs_rtallocate_range ex_mount rtg_part 8 2)) 9 \<and>
   rtbitmap (snd (xfs_rtallocate_range ex_mount rtg_part 8 2)) 10"
proof -
  have rd: "bitmap_readable rtg_part" by (simp add: bitmap_readable_def rtg_part_def no_ioerr_def)
  have srd: "summary_all_readable rtg_part"
    by (simp add: summary_all_readable_def rtg_part_def no_ioerr_def)
  have e: "rtg_extents rtg_part = 16" by (simp add: rtg_part_def)
  have f1: "range_free rtg_part (unat (8 :: 64 word)) (unat (2 :: 32 word))"
    and f2: "range_free rtg_part 7 (unat (8 :: 64 word) - 7)"
    and f3: "range_free rtg_part (unat (8 :: 64 word) + unat (2 :: 32 word)) (16 - (unat (8 :: 64 word) + unat (2 :: 32 word)))"
    and f4: "7 = 0 \<or> \<not> rtbitmap rtg_part (7 - 1)"
    by (simp_all add: range_free_def rtg_part_def)
  have hb: "highbit_nat 9 = 3" "highbit_nat (Suc 0) = 0" "highbit_nat 6 = 2"
    by (simp_all add: highbit_nat.simps)
  note t = xfs_rtallocate_range_effect [OF rd srd _ _ f1 _ f2 f4 _ _ f3, where mp = ex_mount]
  have r: "fst (xfs_rtallocate_range ex_mount rtg_part 8 2) = None"
    "rtsummary (snd (xfs_rtallocate_range ex_mount rtg_part 8 2)) =
       allocated_summary ex_mount (rtsummary rtg_part) 7 16 8 2"
    "rtbitmap (snd (xfs_rtallocate_range ex_mount rtg_part 8 2)) =
       clear_range (rtbitmap rtg_part) 8 2"
    using t by (simp_all add: e)
  have s: "allocated_summary ex_mount (rtsummary rtg_part) 7 16 8 2 13 = 0"
    "allocated_summary ex_mount (rtsummary rtg_part) 7 16 8 2 1 = 1"
    "allocated_summary ex_mount (rtsummary rtg_part) 7 16 8 2 10 = 1"
    by (simp_all add: allocated_summary_def summary_add_def rbmblock_of_def hb
          ex_mount_def rtg_part_def)
  have b: "\<not> clear_range (rtbitmap rtg_part) 8 2 8" "\<not> clear_range (rtbitmap rtg_part) 8 2 9"
    "clear_range (rtbitmap rtg_part) 8 2 10"
    by (simp_all add: clear_range_def rtg_part_def)
  show ?thesis unfolding r using s b by simp
qed

subsection \<open>Size-first allocation\<close>



















subsection \<open>Running out of space in the top-level allocator\<close>











subsection \<open>A grow request that does not grow\<close>

lemma growlock_released:
  "\<not> m_growlock fs \<Longrightarrow> fs\<lparr>m_growlock := True\<rparr>\<lparr>m_growlock := False\<rparr> = fs"
  by (cases fs) simp

text \<open>
  C9. A request whose \<open>newblocks\<close> is at most the current \<open>sb_rblocks\<close>, the current size
  included, is refused, and the filesystem (mount and superblock, bitmap, summary, hint
  array, and the grow lock) is left as it was: none of the working steps runs, whatever
  they would do. For a privileged caller on a realtime mount with the grow lock free the
  error is \<open>EINVAL\<close>; the three earlier checks give \<open>EPERM\<close>, \<open>EINVAL\<close> and \<open>EWOULDBLOCK\<close>.
\<close>

theorem xfs_growfs_rt_no_shrink:
  assumes "newblocks inp \<le> sb_rblocks (fs_mount fs)"
  shows "xfs_growfs_rt env fs inp =
     (Some (if \<not> capable_sys_admin env then EPERM
            else if \<not> is_realtime_mount env then EINVAL
            else if m_growlock fs then EWOULDBLOCK
            else EINVAL), fs)"
  using assms by (simp add: xfs_growfs_rt_def Let_def growlock_released)

theorem xfs_growfs_rt_no_shrink_witness:
  "xfs_growfs_rt ex_env ex_fs (ex_in 16) = (Some EINVAL, ex_fs) \<and>
   xfs_growfs_rt ex_env ex_fs (ex_in 17) = (Some EIO, ex_fs)"
proof -
  have "xfs_growfs_rt ex_env ex_fs (ex_in 16) = (Some EINVAL, ex_fs)"
    using xfs_growfs_rt_no_shrink [of "ex_in 16" ex_fs ex_env]
    by (simp add: ex_in_def ex_fs_def ex_mount_def ex_env_def)
  moreover have "xfs_growfs_rt ex_env ex_fs (ex_in 17) = (Some EIO, ex_fs)"
    by (simp add: xfs_growfs_rt_def ex_in_def ex_fs_def ex_mount_def ex_env_def Let_def
          XFS_FSB_TO_B_def XFS_MAX_RTEXTSIZE_def XFS_MIN_RTEXTSIZE_def)
  ultimately show ?thesis by simp
qed

end
